theory Spec2Isabelle
  imports Complex_Main "HOL-Library.Char_ord" "HOL-Library.List_Lexorder"
    "HOL-Library.Multiset" "HOL-Library.Signed_Division" "HOL-Library.Word"
    "HOL-Library.Log_Nat"
begin

unbundle bit_operations_syntax

section \<open>Data model of the directory lister (package ls)\<close>

text \<open>
  Go strings are byte sequences, so a Go \<^verbatim>\<open>string\<close> is an Isabelle \<^typ>\<open>string\<close>
  (a list of 8-bit characters): \<^verbatim>\<open>len\<close> is \<^const>\<open>length\<close>, \<^verbatim>\<open><\<close> on strings is the
  bytewise lexicographic order, and a glyph outside ASCII is the list of its UTF-8 bytes.
  A Go \<^verbatim>\<open>error\<close> value is kept as its message.
\<close>

datatype error = Error string

text \<open>
  What \<^verbatim>\<open>os.FileInfo\<close> and the \<^verbatim>\<open>*syscall.Stat_t\<close> behind \<^verbatim>\<open>info.Sys()\<close> give to the
  code: \<^verbatim>\<open>Size()\<close>, \<^verbatim>\<open>Mode()\<close> (a uint32; bit 31 is \<^verbatim>\<open>ModeDir\<close>), \<^verbatim>\<open>ModTime()\<close>
  (nanoseconds since the Unix epoch), and the stat fields \<^verbatim>\<open>Blocks\<close> (int64),
  \<^verbatim>\<open>Nlink\<close>, \<^verbatim>\<open>Uid\<close>, \<^verbatim>\<open>Gid\<close> (unsigned).
\<close>

record fileInfo =
  Size :: int
  Mode :: "32 word"
  ModTime :: int
  Blocks :: int
  Nlink :: nat
  Uid :: nat
  Gid :: nat

text \<open>
  An \<^verbatim>\<open>os.DirEntry\<close>: \<^verbatim>\<open>Name()\<close>, \<^verbatim>\<open>IsDir()\<close> and the result of \<^verbatim>\<open>Info()\<close>, which is an
  error when the entry cannot be stat-ed. One invocation sees one snapshot of the file
  system, so \<^verbatim>\<open>Info()\<close> is a field of the entry.
\<close>

record dirEntry =
  Name :: string
  IsDir :: bool
  Info :: "error + fileInfo"

section \<open>Library functions used by the icon classifier\<close>

text \<open>
  \<^verbatim>\<open>strings.ToLower\<close>: a string of ASCII bytes only has its bytes \<^verbatim>\<open>'A'..'Z'\<close> shifted by
  \<^verbatim>\<open>'a' - 'A'\<close>; any other string is mapped rune by rune through the Unicode tables, which
  are the parameter \<open>uni\<close> here.
\<close>

definition lowerByte :: "char \<Rightarrow> char" where
  "lowerByte c = (if CHR ''A'' \<le> c \<and> c \<le> CHR ''Z'' then char_of (of_char c + (32::nat)) else c)"

definition ToLower :: "(string \<Rightarrow> string) \<Rightarrow> string \<Rightarrow> string" where
  "ToLower uni s = (if list_all (\<lambda>c. c < CHR 0x80) s then map lowerByte s else uni s)"

text \<open>
  \<^verbatim>\<open>filepath.Ext\<close>: scan from the last byte towards the first, stop at a path separator,
  return the suffix that starts at the first dot met; the empty string when there is none.
  \<open>ExtFrom cs acc\<close> scans the reversed prefix \<open>cs\<close> with the bytes already passed in \<open>acc\<close>.
\<close>

fun ExtFrom :: "string \<Rightarrow> string \<Rightarrow> string" where
  "ExtFrom [] acc = []"
| "ExtFrom (c # cs) acc =
     (if c = CHR ''/'' then []
      else if c = CHR ''.'' then c # acc
      else ExtFrom cs (c # acc))"

definition Ext :: "string \<Rightarrow> string" where
  "Ext path = ExtFrom (rev path) []"

section \<open>Icon classification (common.go)\<close>

text \<open>The map literal \<^verbatim>\<open>iconMap\<close>, entry by entry, each glyph as its UTF-8 bytes.\<close>

definition iconTable :: "(string \<times> string) list" where
  "iconTable = [
    (''.md'', [CHR 0xF3, CHR 0xB0, CHR 0x8D, CHR 0x94, CHR 0x20]),
    (''.txt'', [CHR 0xEF, CHR 0x85, CHR 0x9C, CHR 0x20]),
    (''.doc'', [CHR 0xF3, CHR 0xB0, CHR 0x88, CHR 0xAC, CHR 0x20]),
    (''.docx'', [CHR 0xF3, CHR 0xB0, CHR 0x88, CHR 0xAC, CHR 0x20]),
    (''.pdf'', [CHR 0xEE, CHR 0x99, CHR 0xBD, CHR 0x20]),
    (''.xls'', [CHR 0xF3, CHR 0xB0, CHR 0x88, CHR 0x9B, CHR 0x20]),
    (''.xlsx'', [CHR 0xF3, CHR 0xB0, CHR 0x88, CHR 0x9B, CHR 0x20]),
    (''.ppt'', [CHR 0xF3, CHR 0xB0, CHR 0x88, CHR 0xA7, CHR 0x20]),
    (''.pptx'', [CHR 0xF3, CHR 0xB0, CHR 0x88, CHR 0xA7, CHR 0x20]),
    (''.rtf'', [CHR 0xEF, CHR 0x85, CHR 0x9C, CHR 0x20]),
    (''.odt'', [CHR 0xF3, CHR 0xB0, CHR 0x88, CHR 0xAC, CHR 0x20]),
    (''.ods'', [CHR 0xF3, CHR 0xB0, CHR 0x88, CHR 0x9B, CHR 0x20]),
    (''.odp'', [CHR 0xF3, CHR 0xB0, CHR 0x88, CHR 0xA7, CHR 0x20]),
    (''.csv'', [CHR 0xEE, CHR 0x99, CHR 0x8A, CHR 0x20]),
    (''.tsv'', [CHR 0xEE, CHR 0x99, CHR 0x8A, CHR 0x20]),
    (''.html'', [CHR 0xEE, CHR 0x98, CHR 0x8E, CHR 0x20]),
    (''.htm'', [CHR 0xEE, CHR 0x98, CHR 0x8E, CHR 0x20]),
    (''.xml'', [CHR 0xF3, CHR 0xB0, CHR 0x97, CHR 0x80, CHR 0x20]),
    (''.xhtml'', [CHR 0xF3, CHR 0xB0, CHR 0x97, CHR 0x80, CHR 0x20]),
    (''.css'', [CHR 0xEE, CHR 0x9D, CHR 0x89, CHR 0x20]),
    (''.js'', [CHR 0xEF, CHR 0x8B, CHR 0xAF, CHR 0x20]),
    (''.json'', [CHR 0xEE, CHR 0xAC, CHR 0x8F, CHR 0x20]),
    (''.php'', [CHR 0xEE, CHR 0x98, CHR 0x88, CHR 0x20]),
    (''.jsp'', [CHR 0xEE, CHR 0x99, CHR 0xAD, CHR 0x20]),
    (''.java'', [CHR 0xEE, CHR 0x9C, CHR 0xB8, CHR 0x20]),
    (''.py'', [CHR 0xF3, CHR 0xB0, CHR 0x8C, CHR 0xA0, CHR 0x20]),
    (''.rb'', [CHR 0xF3, CHR 0xB0, CHR 0xB4, CHR 0xAD, CHR 0x20]),
    (''.cpp'', [CHR 0xF3, CHR 0xB0, CHR 0x99, CHR 0xB2, CHR 0x20]),
    (''.c'', [CHR 0xEE, CHR 0x98, CHR 0x9E, CHR 0x20]),
    (''.cs'', [CHR 0xEE, CHR 0x9E, CHR 0xB2, CHR 0x20]),
    (''.go'', [CHR 0xEE, CHR 0x99, CHR 0x9E, CHR 0x20]),
    (''.swift'', [CHR 0xEE, CHR 0x9A, CHR 0x99, CHR 0x20]),
    (''.kt'', [CHR 0xEE, CHR 0x98, CHR 0xB4, CHR 0x20]),
    (''.sql'', [CHR 0xEF, CHR 0x91, CHR 0xB2, CHR 0x20]),
    (''.db'', [CHR 0xEF, CHR 0x91, CHR 0xB2, CHR 0x20]),
    (''.sqlite'', [CHR 0xEF, CHR 0x91, CHR 0xB2, CHR 0x20]),
    (''.bak'', [CHR 0xF3, CHR 0xB0, CHR 0x81, CHR 0xAF, CHR 0x20]),
    (''.log'', [CHR 0xF3, CHR 0xB1, CHR 0x82, CHR 0x85, CHR 0x20]),
    (''.sh'', [CHR 0xEE, CHR 0x9D, CHR 0xA0, CHR 0x20]),
    (''.bat'', [CHR 0xEE, CHR 0xAF, CHR 0x84, CHR 0x20]),
    (''.ps1'', [CHR 0xEE, CHR 0xA1, CHR 0xAC, CHR 0x20]),
    (''.pl'', [CHR 0xEE, CHR 0x99, CHR 0xBE, CHR 0x20]),
    (''.r'', [CHR 0xEE, CHR 0xA2, CHR 0x81, CHR 0x20]),
    (''.jar'', [CHR 0xEE, CHR 0x9C, CHR 0xB8, CHR 0x20]),
    (''.war'', [CHR 0xEE, CHR 0x9C, CHR 0xB8, CHR 0x20]),
    (''.ear'', [CHR 0xEE, CHR 0x9C, CHR 0xB8, CHR 0x20]),
    (''.exe'', [CHR 0xF3, CHR 0xB0, CHR 0xA8, CHR 0xA1, CHR 0x20]),
    (''.dll'', [CHR 0xF3, CHR 0xB0, CHR 0xA8, CHR 0xA1, CHR 0x20]),
    (''.sys'', [CHR 0xF3, CHR 0xB0, CHR 0xA8, CHR 0xA1, CHR 0x20]),
    (''.msi'', [CHR 0xF3, CHR 0xB0, CHR 0xA8, CHR 0xA1, CHR 0x20]),
    (''.deb'', [CHR 0xEE, CHR 0x9D, CHR 0xBD, CHR 0x20]),
    (''.rpm'', [CHR 0xEE, CHR 0xBD, CHR 0x9D, CHR 0x20]),
    (''.apk'', [CHR 0xF3, CHR 0xB0, CHR 0x80, CHR 0xB2, CHR 0x20]),
    (''.ipa'', [CHR 0xEF, CHR 0x82, CHR 0xBE, CHR 0x20]),
    (''.iso'', [CHR 0xEF, CHR 0x82, CHR 0xBE, CHR 0x20]),
    (''.img'', [CHR 0xF3, CHR 0xB0, CHR 0xA8, CHR 0xA3, CHR 0x20]),
    (''.bin'', [CHR 0xEE, CHR 0xAB, CHR 0xA8, CHR 0x20]),
    (''.cue'', [CHR 0xF3, CHR 0xB1, CHR 0x94, CHR 0xBC]),
    (''.vhd'', [CHR 0xF3, CHR 0xB0, CHR 0x8B, CHR 0x8A, CHR 0x20]),
    (''.vmdk'', [CHR 0xF3, CHR 0xB0, CHR 0x8B, CHR 0x8A, CHR 0x20]),
    (''.dmg'', [CHR 0xF3, CHR 0xB0, CHR 0x8B, CHR 0x8A, CHR 0x20]),
    (''.zip'', [CHR 0xF3, CHR 0xB0, CHR 0xBF, CHR 0xBA, CHR 0x20]),
    (''.rar'', [CHR 0xF3, CHR 0xB0, CHR 0xBF, CHR 0xBA, CHR 0x20]),
    (''.7z'', [CHR 0xF3, CHR 0xB0, CHR 0xBF, CHR 0xBA, CHR 0x20]),
    (''.tar'', [CHR 0xF3, CHR 0xB0, CHR 0xBF, CHR 0xBA, CHR 0x20]),
    (''.gz'', [CHR 0xF3, CHR 0xB0, CHR 0xBF, CHR 0xBA, CHR 0x20]),
    (''.bz2'', [CHR 0xF3, CHR 0xB0, CHR 0xBF, CHR 0xBA, CHR 0x20]),
    (''.xz'', [CHR 0xF3, CHR 0xB0, CHR 0xBF, CHR 0xBA, CHR 0x20]),
    (''.zst'', [CHR 0xF3, CHR 0xB0, CHR 0xBF, CHR 0xBA, CHR 0x20]),
    (''.cpio'', [CHR 0xF3, CHR 0xB0, CHR 0xBF, CHR 0xBA, CHR 0x20]),
    (''.mp3'', [CHR 0xF3, CHR 0xB1, CHR 0x91, CHR 0xBD, CHR 0x20]),
    (''.wav'', [CHR 0xF3, CHR 0xB1, CHR 0x91, CHR 0xBD, CHR 0x20]),
    (''.flac'', [CHR 0xF3, CHR 0xB1, CHR 0x91, CHR 0xBD, CHR 0x20]),
    (''.aac'', [CHR 0xF3, CHR 0xB1, CHR 0x91, CHR 0xBD, CHR 0x20]),
    (''.ogg'', [CHR 0xF3, CHR 0xB1, CHR 0x91, CHR 0xBD, CHR 0x20]),
    (''.wma'', [CHR 0xF3, CHR 0xB1, CHR 0x91, CHR 0xBD, CHR 0x20]),
    (''.m4a'', [CHR 0xF3, CHR 0xB1, CHR 0x91, CHR 0xBD, CHR 0x20]),
    (''.aiff'', [CHR 0xF3, CHR 0xB1, CHR 0x91, CHR 0xBD, CHR 0x20]),
    (''.avi'', [CHR 0xF3, CHR 0xB0, CHR 0x88, CHR 0xAB, CHR 0x20]),
    (''.mp4'', [CHR 0xF3, CHR 0xB0, CHR 0x88, CHR 0xAB, CHR 0x20]),
    (''.mkv'', [CHR 0xF3, CHR 0xB0, CHR 0x88, CHR 0xAB, CHR 0x20]),
    (''.mov'', [CHR 0xF3, CHR 0xB0, CHR 0x88, CHR 0xAB, CHR 0x20]),
    (''.wmv'', [CHR 0xF3, CHR 0xB0, CHR 0x88, CHR 0xAB, CHR 0x20]),
    (''.flv'', [CHR 0xF3, CHR 0xB0, CHR 0x88, CHR 0xAB, CHR 0x20]),
    (''.mpeg'', [CHR 0xF3, CHR 0xB0, CHR 0x88, CHR 0xAB, CHR 0x20]),
    (''.mpg'', [CHR 0xF3, CHR 0xB0, CHR 0x88, CHR 0xAB, CHR 0x20]),
    (''.m4v'', [CHR 0xF3, CHR 0xB0, CHR 0x88, CHR 0xAB, CHR 0x20]),
    (''.3gp'', [CHR 0xF3, CHR 0xB0, CHR 0x88, CHR 0xAB, CHR 0x20]),
    (''.3g2'', [CHR 0xF3, CHR 0xB0, CHR 0x88, CHR 0xAB, CHR 0x20]),
    (''.swf'', [CHR 0xEF, CHR 0x87, CHR 0x88, CHR 0x20]),
    (''.vob'', [CHR 0xF3, CHR 0xB0, CHR 0x88, CHR 0xAB, CHR 0x20]),
    (''.svg'', [CHR 0xF3, CHR 0xB0, CHR 0x95, CHR 0xA0, CHR 0x20]),
    (''.png'', [CHR 0xEF, CHR 0x87, CHR 0x85, CHR 0x20]),
    (''.jpg'', [CHR 0xEF, CHR 0x87, CHR 0x85, CHR 0x20]),
    (''.jpeg'', [CHR 0xEF, CHR 0x87, CHR 0x85, CHR 0x20]),
    (''.gif'', [CHR 0xEF, CHR 0x87, CHR 0x85, CHR 0x20]),
    (''.bmp'', [CHR 0xEF, CHR 0x87, CHR 0x85, CHR 0x20]),
    (''.tiff'', [CHR 0xEF, CHR 0x87, CHR 0x85, CHR 0x20]),
    (''.ico'', [CHR 0xEF, CHR 0x87, CHR 0x85, CHR 0x20]),
    (''.heic'', [CHR 0xEF, CHR 0x87, CHR 0x85, CHR 0x20]),
    (''.psd'', [CHR 0xEE, CHR 0x99, CHR 0xBF, CHR 0x20]),
    (''.ai'', [CHR 0xEE, CHR 0x99, CHR 0xA9, CHR 0x20]),
    (''.sketch'', [CHR 0xF3, CHR 0xB0, CHR 0x89, CHR 0xBC, CHR 0x20]),
    (''.xcf'', [CHR 0xEF, CHR 0x8C, CHR 0xB8, CHR 0x20]),
    (''.raw'', [CHR 0xF3, CHR 0xB1, CHR 0xA8, CHR 0x8F, CHR 0x20]),
    (''.cdr'', [CHR 0xF3, CHR 0xB0, CHR 0x87, CHR 0x9E, CHR 0x20]),
    (''.tex'', [CHR 0xEE, CHR 0xA0, CHR 0x9F, CHR 0x20]),
    (''.cfg'', [CHR 0xEE, CHR 0xAD, CHR 0x91, CHR 0x20]),
    (''.ini'', [CHR 0xEE, CHR 0xAD, CHR 0x91, CHR 0x20]),
    (''.conf'', [CHR 0xEE, CHR 0xAD, CHR 0x91, CHR 0x20]),
    (''.env'', [CHR 0xEE, CHR 0xAD, CHR 0x91, CHR 0x20]),
    (''.cmd'', []),
    (''.reg'', [CHR 0xEE, CHR 0xAD, CHR 0x91, CHR 0x20]),
    (''.vcf'', [CHR 0xEF, CHR 0x8A, CHR 0xB9, CHR 0x20]),
    (''.ics'', [CHR 0xEF, CHR 0x81, CHR 0xB3, CHR 0x20]),
    (''.mobi'', [CHR 0xEE, CHR 0xB7, CHR 0xA2, CHR 0x20]),
    (''.epub'', [CHR 0xEE, CHR 0xB7, CHR 0xA2, CHR 0x20]),
    (''.azw'', [CHR 0xEE, CHR 0xB7, CHR 0xA2, CHR 0x20]),
    (''.ttf'', [CHR 0xEE, CHR 0x99, CHR 0x99, CHR 0x20]),
    (''.otf'', [CHR 0xEE, CHR 0x99, CHR 0x99, CHR 0x20]),
    (''.fon'', [CHR 0xEE, CHR 0x99, CHR 0x99, CHR 0x20]),
    (''.mht'', [CHR 0xF3, CHR 0xB0, CHR 0x96, CHR 0x9F, CHR 0x20]),
    (''.mhtml'', [CHR 0xF3, CHR 0xB0, CHR 0x96, CHR 0x9F, CHR 0x20]),
    (''.part'', [CHR 0xF3, CHR 0xB1, CHR 0x91, CHR 0xA2, CHR 0x20]),
    (''.tmp'', [CHR 0xEF, CHR 0x94, CHR 0x89, CHR 0x20]),
    (''.desktop'', [CHR 0xEE, CHR 0x98, CHR 0x95, CHR 0x20]),
    (''.service'', [CHR 0xEE, CHR 0x98, CHR 0x95, CHR 0x20]),
    (''.ko'', [CHR 0xEE, CHR 0x9C, CHR 0x92, CHR 0x20]),
    (''.run'', [CHR 0xEE, CHR 0xAD, CHR 0xBB, CHR 0x20])]"

definition iconMap :: "string \<rightharpoonup> string" where
  "iconMap = map_of iconTable"

text \<open>The glyphs written as literals in \<^verbatim>\<open>getIcon\<close> and \<^verbatim>\<open>getFileNameWithIcon\<close>.\<close>

definition iconFile :: string where
  "iconFile = [CHR 0xEE, CHR 0xA9, CHR 0xBB, CHR 0x20]"

definition iconFolder :: string where
  "iconFolder = [CHR 0xEE, CHR 0x97, CHR 0xBF, CHR 0x20]"

definition iconGo :: string where
  "iconGo = [CHR 0xF3, CHR 0xB0, CHR 0x9F, CHR 0x93, CHR 0x20]"

definition iconDocker :: string where
  "iconDocker = [CHR 0xEF, CHR 0x88, CHR 0x9F, CHR 0x20]"

definition iconRust :: string where
  "iconRust = [CHR 0xEE, CHR 0x9A, CHR 0x8B, CHR 0x20]"

definition iconGit :: string where
  "iconGit = [CHR 0xEF, CHR 0x87, CHR 0x93, CHR 0x20]"

definition iconMakefile :: string where
  "iconMakefile = [CHR 0xEE, CHR 0x99, CHR 0xB3, CHR 0x20]"

definition getIcon :: "string \<Rightarrow> string" where
  "getIcon ext = (case iconMap ext of Some icon \<Rightarrow> icon | None \<Rightarrow> iconFile)"

text \<open>
  \<^verbatim>\<open>getFileNameWithIcon\<close>: the directory test, then the \<^verbatim>\<open>switch\<close> whose cases compare
  \<^verbatim>\<open>entry.Name()\<close> with string literals, in the order of the source, and the
  \<^verbatim>\<open>default\<close> case that looks the lowercased extension up.
\<close>

definition getFileNameWithIcon :: "(string \<Rightarrow> string) \<Rightarrow> dirEntry \<Rightarrow> string" where
  "getFileNameWithIcon uni entry =
     (if IsDir entry then iconFolder @ Name entry
      else
        let ext = ToLower uni (Ext (Name entry)) in
        if Name entry = ''go.mod'' \<or> Name entry = ''go.sum'' then iconGo @ Name entry
        else if Name entry = ''Dockerfile'' \<or> Name entry = ''docker-compose.yml''
                \<or> Name entry = ''.dockerignore'' then iconDocker @ Name entry
        else if Name entry = ''cargo.toml'' then iconRust @ Name entry
        else if Name entry = ''.github'' \<or> Name entry = ''.gitignore'' then iconGit @ Name entry
        else if Name entry = ''Makefile'' then iconMakefile @ Name entry
        else getIcon ext @ Name entry)"

text \<open>
  The exact-name rules of the \<^verbatim>\<open>switch\<close> read as a table, to state which rule decides.
\<close>

definition exactNameTable :: "(string \<times> string) list" where
  "exactNameTable =
     [(''go.mod'', iconGo), (''go.sum'', iconGo),
      (''Dockerfile'', iconDocker), (''docker-compose.yml'', iconDocker),
      (''.dockerignore'', iconDocker),
      (''cargo.toml'', iconRust),
      (''.github'', iconGit), (''.gitignore'', iconGit),
      (''Makefile'', iconMakefile)]"

definition exactNameIcon :: "string \<rightharpoonup> string" where
  "exactNameIcon = map_of exactNameTable"

section \<open>Formatting verbs of package fmt\<close>

definition newline :: string where
  "newline = [CHR 0x0A]"

definition errorString :: "error \<Rightarrow> string" where
  "errorString e = (case e of Error m \<Rightarrow> m)"

text \<open>\<^verbatim>\<open>%d\<close> and \<^verbatim>\<open>fmt.Sprint\<close> of an integer: decimal digits, a minus sign when negative.\<close>

definition digitChar :: "nat \<Rightarrow> char" where
  "digitChar d = char_of (48 + d)"

function showNat :: "nat \<Rightarrow> string" where
  "showNat n = (if n < 10 then [digitChar n] else showNat (n div 10) @ [digitChar (n mod 10)])"
  by pat_completeness auto
termination
  by (relation "measure id") auto

declare showNat.simps [simp del]

definition showInt :: "int \<Rightarrow> string" where
  "showInt i = (if i < 0 then CHR ''-'' # showNat (nat (- i)) else showNat (nat i))"

text \<open>\<^verbatim>\<open>%4d\<close>: right-aligned in a field of at least four characters.\<close>

definition padLeft :: "nat \<Rightarrow> string \<Rightarrow> string" where
  "padLeft w s = replicate (w - length s) (CHR 0x20) @ s"

text \<open>
  \<^verbatim>\<open>%-*s\<close>: left-aligned, padded with spaces up to the width. Package fmt measures the
  width in runes; \<open>rc\<close> is \<^verbatim>\<open>utf8.RuneCountInString\<close>.
\<close>

definition padRight :: "(string \<Rightarrow> nat) \<Rightarrow> int \<Rightarrow> string \<Rightarrow> string" where
  "padRight rc w s = s @ replicate (nat w - rc s) (CHR 0x20)"

text \<open>An int64 result: the mathematical value wrapped into \<open>[-2^63, 2^63)\<close>.\<close>

definition int64 :: "int \<Rightarrow> int" where
  "int64 x = (x + 2 ^ 63) mod 2 ^ 64 - 2 ^ 63"

section \<open>The environment of one invocation\<close>

text \<open>
  What the code asks of the operating system and of the Go library, as one record:
  \<^verbatim>\<open>os.ReadDir\<close>, \<^verbatim>\<open>user.LookupId\<close> (the \<^verbatim>\<open>Username\<close> found) and \<^verbatim>\<open>user.LookupGroupId\<close>
  (the \<^verbatim>\<open>Name\<close> found), \<^verbatim>\<open>term.GetSize\<close> (width and height, or an error), the reading
  of \<^verbatim>\<open>time.Now()\<close> taken while the entry at a given position is rendered
  (nanoseconds since the epoch), the Unicode case tables behind \<^verbatim>\<open>strings.ToLower\<close>,
  \<^verbatim>\<open>utf8.RuneCountInString\<close>, \<^verbatim>\<open>Time.Format\<close> and \<^verbatim>\<open>sort.Slice\<close>.
\<close>

record env =
  ReadDir :: "string \<Rightarrow> error + dirEntry list"
  LookupId :: "string \<Rightarrow> error + string"
  LookupGroupId :: "string \<Rightarrow> error + string"
  GetSize :: "error + int \<times> int"
  Now :: "nat \<Rightarrow> int"
  unicodeLower :: "string \<Rightarrow> string"
  RuneCountInString :: "string \<Rightarrow> nat"
  TimeFormat :: "string \<Rightarrow> int \<Rightarrow> string"
  sortSlice :: "(dirEntry \<Rightarrow> dirEntry \<Rightarrow> bool) \<Rightarrow> dirEntry list \<Rightarrow> dirEntry list"

record streams =
  stdout :: string
  stderr :: string

section \<open>Sorting (Run)\<close>

text \<open>The closure given to \<^verbatim>\<open>sort.Slice\<close>.\<close>

definition entryLess :: "(string \<Rightarrow> string) \<Rightarrow> dirEntry \<Rightarrow> dirEntry \<Rightarrow> bool" where
  "entryLess uni a b = (ToLower uni (Name a) < ToLower uni (Name b))"

text \<open>
  The documented result of \<^verbatim>\<open>sort.Slice(x, less)\<close>: the same elements, and no element is
  \<^verbatim>\<open>less\<close> than one that precedes it. The sort is documented as not stable, so nothing is
  said of elements that \<^verbatim>\<open>less\<close> does not separate.
\<close>

definition sortSlicePost :: "('a \<Rightarrow> 'a \<Rightarrow> bool) \<Rightarrow> 'a list \<Rightarrow> 'a list \<Rightarrow> bool" where
  "sortSlicePost lt xs ys = (mset ys = mset xs \<and> sorted_wrt (\<lambda>a b. \<not> lt b a) ys)"

text \<open>
  The order of the specification, to compare with \<^const>\<open>entryLess\<close>: case-insensitive
  names ascending, and names equal case-insensitively in their case-sensitive byte order.
\<close>

definition specEntryLess :: "(string \<Rightarrow> string) \<Rightarrow> dirEntry \<Rightarrow> dirEntry \<Rightarrow> bool" where
  "specEntryLess uni a b =
     (ToLower uni (Name a) < ToLower uni (Name b)
      \<or> (ToLower uni (Name a) = ToLower uni (Name b) \<and> Name a < Name b))"

section \<open>Long format (printTotalBlocks, printDetailedEntry)\<close>

text \<open>The loop of \<^verbatim>\<open>printTotalBlocks\<close>, with the int64 accumulator \<^verbatim>\<open>totalBlocks\<close>.\<close>

fun sumBlocks :: "int \<Rightarrow> dirEntry list \<Rightarrow> int" where
  "sumBlocks totalBlocks [] = totalBlocks"
| "sumBlocks totalBlocks (entry # entries) =
     (case Info entry of
        Inl err \<Rightarrow> sumBlocks totalBlocks entries
      | Inr info \<Rightarrow> sumBlocks (int64 (totalBlocks + Blocks info)) entries)"

definition printTotalBlocks :: "dirEntry list \<Rightarrow> string" where
  "printTotalBlocks entries = ''total '' @ showInt (sumBlocks 0 entries sdiv 2) @ newline"

text \<open>
  \<^verbatim>\<open>FileMode.String\<close>: the letters of the type bits that are set (bit 31 first), a dash
  when there is none, then the nine permission letters. \<^verbatim>\<open>Perm\<close> keeps the low nine bits.
\<close>

definition rwxString :: "32 word \<Rightarrow> string" where
  "rwxString m = map (\<lambda>i. if bit m (8 - i) then ''rwxrwxrwx'' ! i else CHR ''-'') [0..<9]"

definition modeString :: "32 word \<Rightarrow> string" where
  "modeString m =
     (let w = map snd (filter (\<lambda>(i, c). bit m (31 - i)) (zip [0..<13] ''dalTLDpSugct?''))
      in (if w = [] then ''-'' else w) @ rwxString m)"

definition Perm :: "32 word \<Rightarrow> 32 word" where
  "Perm m = m AND 0x1FF"

definition modeIsDir :: "32 word \<Rightarrow> bool" where
  "modeIsDir m = bit m 31"

definition permsOf :: "fileInfo \<Rightarrow> string" where
  "permsOf info =
     (let perms = modeString (Perm (Mode info))
      in if modeIsDir (Mode info) then ''d'' @ drop 1 perms else ''-'' @ drop 1 perms)"

text \<open>
  Owner and group: the id printed in decimal, looked up, and kept as it is when the lookup
  fails.
\<close>

definition ownerName :: "env \<Rightarrow> fileInfo \<Rightarrow> string" where
  "ownerName env info =
     (let uid = showNat (Uid info)
      in case LookupId env uid of Inl err \<Rightarrow> uid | Inr username \<Rightarrow> username)"

definition groupName :: "env \<Rightarrow> fileInfo \<Rightarrow> string" where
  "groupName env info =
     (let gid = showNat (Gid info)
      in case LookupGroupId env gid of Inl err \<Rightarrow> gid | Inr name \<Rightarrow> name)"

subsection \<open>The age test: \<^verbatim>\<open>time.Since(t).Hours() > 6*30*24\<close>\<close>

text \<open>
  \<^verbatim>\<open>time.Since\<close> on a time without monotonic reading is \<^verbatim>\<open>Now().Sub(t)\<close>, a \<^verbatim>\<open>Duration\<close>
  (int64 nanoseconds) that saturates at the ends of the int64 range.
\<close>

definition Since :: "int \<Rightarrow> int \<Rightarrow> int" where
  "Since now t =
     (let d = now - t
      in if d > 2 ^ 63 - 1 then 2 ^ 63 - 1 else if d < - (2 ^ 63) then - (2 ^ 63) else d)"

text \<open>
  A float64 is kept as the rational it denotes. \<open>round64\<close> is IEEE 754 rounding to
  nearest, ties to even, with a significand of 53 bits, for values in the normal range
  (every value of the age test lies between \<open>2^-42\<close> and \<open>2^22\<close> in magnitude, or is zero).
  \<open>ilog2 a\<close> is the exponent \<open>e\<close> with \<open>2^e \<le> a < 2^(e + 1)\<close>.
\<close>

definition roundHalfEven :: "rat \<Rightarrow> int" where
  "roundHalfEven x =
     (let f = \<lfloor>x\<rfloor>; r = x - of_int f
      in if r < 1 / 2 then f else if 1 / 2 < r then f + 1 else if even f then f else f + 1)"

definition ilog2 :: "rat \<Rightarrow> int" where
  "ilog2 a =
     (if 1 \<le> a then int (floorlog 2 (nat \<lfloor>a\<rfloor>)) - 1
      else - int (floorlog 2 (nat (\<lceil>1 / a\<rceil> - 1))))"

definition round64 :: "rat \<Rightarrow> rat" where
  "round64 x =
     (if x = 0 then 0
      else let u = 2 powi (ilog2 \<bar>x\<bar> - 52)
           in sgn x * (of_int (roundHalfEven (\<bar>x\<bar> / u)) * u))"

text \<open>
  \<^verbatim>\<open>Duration.Hours\<close>: \<^verbatim>\<open>hour := d / Hour; nsec := d % Hour;
  return float64(hour) + float64(nsec)/(60*60*1e9)\<close>, every operation rounded to float64.
\<close>

definition Hour :: int where
  "Hour = 3600000000000"

definition Hours :: "int \<Rightarrow> rat" where
  "Hours d =
     (let hour = d sdiv Hour; nsec = d smod Hour
      in round64 (round64 (of_int hour) + round64 (round64 (of_int nsec) / 3600000000000)))"

definition timeFormatFor :: "int \<Rightarrow> int \<Rightarrow> string" where
  "timeFormatFor now modTime =
     (if Hours (Since now modTime) > 4320 then ''Jan _2 2006'' else ''Jan _2 15:04'')"

subsection \<open>One line per entry\<close>

definition printDetailedEntry :: "env \<Rightarrow> int \<Rightarrow> dirEntry \<Rightarrow> string" where
  "printDetailedEntry env now entry =
     (case Info entry of
        Inl err \<Rightarrow>
          ''ls: error reading file info for '' @ Name entry @ '': '' @ errorString err @ newline
      | Inr info \<Rightarrow>
          permsOf info @ '' '' @ showNat (Nlink info) @ '' '' @ ownerName env info @ '' ''
          @ groupName env info @ '' '' @ padLeft 4 (showInt (Size info)) @ '' ''
          @ TimeFormat env (timeFormatFor now (ModTime info)) (ModTime info) @ '' ''
          @ getFileNameWithIcon (unicodeLower env) entry @ newline)"

text \<open>The loop of \<^verbatim>\<open>Run\<close> over the sorted entries; \<open>i\<close> is the position of the next entry.\<close>

fun printEntries :: "env \<Rightarrow> nat \<Rightarrow> dirEntry list \<Rightarrow> string" where
  "printEntries env i [] = []"
| "printEntries env i (entry # entries) =
     printDetailedEntry env (Now env i) entry @ printEntries env (Suc i) entries"

section \<open>Compact layout (printMultiColumn)\<close>

definition effectiveWidth :: "error + int \<times> int \<Rightarrow> int" where
  "effectiveWidth probe =
     (case probe of Inl err \<Rightarrow> 80 | Inr (width, height) \<Rightarrow> if width < 20 then 80 else width)"

text \<open>The first loop: the rendered names, and the running maximum of their lengths.\<close>

fun maxLenFrom :: "int \<Rightarrow> string list \<Rightarrow> int" where
  "maxLenFrom maxLen [] = maxLen"
| "maxLenFrom maxLen (name # names) =
     maxLenFrom (if int (length name) > maxLen then int (length name) else maxLen) names"

text \<open>
  \<^verbatim>\<open>cols := width / colWidth\<close>, a division that panics on a zero divisor and truncates
  otherwise, then the guard \<^verbatim>\<open>if cols == 0 { cols = 1 }\<close>.
\<close>

definition columnCount :: "int \<Rightarrow> int \<Rightarrow> error + int" where
  "columnCount width colWidth =
     (if colWidth = 0 then Inl (Error ''runtime error: integer divide by zero'')
      else let cols = width sdiv colWidth in Inr (if cols = 0 then 1 else cols))"

text \<open>The second loop: \<open>n\<close> is \<^verbatim>\<open>len(names)\<close> and \<open>i\<close> the index of the next name.\<close>

fun printColumns :: "(string \<Rightarrow> nat) \<Rightarrow> int \<Rightarrow> int \<Rightarrow> nat \<Rightarrow> nat \<Rightarrow> string list \<Rightarrow> string" where
  "printColumns rc colWidth cols n i [] = []"
| "printColumns rc colWidth cols n i (name # names) =
     padRight rc colWidth name
     @ (if (int i + 1) smod cols = 0 \<or> int i = int n - 1 then newline else [])
     @ printColumns rc colWidth cols n (Suc i) names"

definition printMultiColumn :: "env \<Rightarrow> dirEntry list \<Rightarrow> error + string" where
  "printMultiColumn env entries =
     (let width = effectiveWidth (GetSize env);
          names = map (getFileNameWithIcon (unicodeLower env)) entries;
          colWidth = maxLenFrom 0 names + 2
      in case columnCount width colWidth of
           Inl panic \<Rightarrow> Inl panic
         | Inr cols \<Rightarrow>
             Inr (printColumns (RuneCountInString env) colWidth cols (length names) 0 names))"

section \<open>Run\<close>

text \<open>
  \<open>longFormat\<close> and \<open>args\<close> are what package flag leaves after parsing: the value of
  \<^verbatim>\<open>-l\<close> and the remaining arguments. The result is what was written to the two streams,
  or the panic that ended the run.
\<close>

definition Run :: "env \<Rightarrow> bool \<Rightarrow> string list \<Rightarrow> error + streams" where
  "Run env longFormat args =
     (let dir = (case args of [] \<Rightarrow> ''.'' | a # rest \<Rightarrow> a)
      in case ReadDir env dir of
           Inl err \<Rightarrow>
             Inr \<lparr>stdout = [],
                  stderr = ''ls: cannot access '' @ [CHR 0x27] @ dir @ [CHR 0x27] @ '': ''
                           @ errorString err @ newline\<rparr>
         | Inr listing \<Rightarrow>
             let entries = sortSlice env (entryLess (unicodeLower env)) listing
             in if longFormat
                then Inr \<lparr>stdout = printTotalBlocks entries @ printEntries env 0 entries,
                          stderr = []\<rparr>
                else (case printMultiColumn env entries of
                        Inl panic \<Rightarrow> Inl panic
                      | Inr columns \<Rightarrow> Inr \<lparr>stdout = columns, stderr = []\<rparr>))"

section \<open>Concrete entries and environments\<close>

text \<open>Entries used to run the definitions on concrete inputs.\<close>

definition noInfo :: "error + fileInfo" where
  "noInfo = Inl (Error ''lstat: no such file or directory'')"

definition dirPhotos :: dirEntry where
  "dirPhotos = \<lparr>Name = ''photos.png'', IsDir = True, Info = noInfo\<rparr>"

definition fileGoMod :: dirEntry where
  "fileGoMod = \<lparr>Name = ''go.mod'', IsDir = False, Info = noInfo\<rparr>"

definition fileAmd :: dirEntry where
  "fileAmd = \<lparr>Name = ''A.md'', IsDir = False, Info = noInfo\<rparr>"

definition fileC :: dirEntry where
  "fileC = \<lparr>Name = ''c'', IsDir = False, Info = noInfo\<rparr>"

definition iconMarkdown :: string where
  "iconMarkdown = [CHR 0xF3, CHR 0xB0, CHR 0x8D, CHR 0x94, CHR 0x20]"



definition fileBTXT :: dirEntry where
  "fileBTXT = \<lparr>Name = ''b.TXT'', IsDir = False, Info = noInfo\<rparr>"

definition fileBtxt :: dirEntry where
  "fileBtxt = \<lparr>Name = ''b.txt'', IsDir = False, Info = noInfo\<rparr>"

definition fileMakefile :: dirEntry where
  "fileMakefile = \<lparr>Name = ''Makefile'', IsDir = False, Info = noInfo\<rparr>"

definition fileMakefileLower :: dirEntry where
  "fileMakefileLower = \<lparr>Name = ''makefile'', IsDir = False, Info = noInfo\<rparr>"

definition iconText :: string where
  "iconText = [CHR 0xEF, CHR 0x85, CHR 0x9C, CHR 0x20]"

text \<open>
  An environment to run the definitions in: the directory \<^verbatim>\<open>.\<close> holds the given listing
  and no other path can be read, only the ids 0 are known to the user and group databases,
  the clock stands still, the rune count is the one of well-formed UTF-8 (the bytes that do
  not continue a rune), the time formatter returns its layout, and the sort is an
  insertion sort.
\<close>

definition countRunes :: "string \<Rightarrow> nat" where
  "countRunes s = length (filter (\<lambda>c. \<not> (CHR 0x80 \<le> c \<and> c < CHR 0xC0)) s)"

fun insertBy :: "('a \<Rightarrow> 'a \<Rightarrow> bool) \<Rightarrow> 'a \<Rightarrow> 'a list \<Rightarrow> 'a list" where
  "insertBy lt x [] = [x]"
| "insertBy lt x (y # ys) = (if lt y x then y # insertBy lt x ys else x # y # ys)"

definition insertionSort :: "('a \<Rightarrow> 'a \<Rightarrow> bool) \<Rightarrow> 'a list \<Rightarrow> 'a list" where
  "insertionSort lt xs = foldr (insertBy lt) xs []"

definition exampleEnv :: "dirEntry list \<Rightarrow> error + int \<times> int \<Rightarrow> env" where
  "exampleEnv listing probe =
     \<lparr>ReadDir = (\<lambda>dir. if dir = ''.'' then Inr listing
                        else Inl (Error ''open: no such file or directory'')),
      LookupId = (\<lambda>uid. if uid = ''0'' then Inr ''root''
                         else Inl (Error ''user: unknown userid'')),
      LookupGroupId = (\<lambda>gid. if gid = ''0'' then Inr ''wheel''
                              else Inl (Error ''group: unknown groupid'')),
      GetSize = probe,
      Now = (\<lambda>i. 1700000000000000000),
      unicodeLower = id,
      RuneCountInString = countRunes,
      TimeFormat = (\<lambda>layout t. layout),
      sortSlice = insertionSort\<rparr>"


text \<open>The file infos of the entries whose \<^verbatim>\<open>Info()\<close> succeeded, in order.\<close>

definition statInfos :: "dirEntry list \<Rightarrow> fileInfo list" where
  "statInfos entries =
     concat (map (\<lambda>e. case Info e of Inl err \<Rightarrow> [] | Inr info \<Rightarrow> [info]) entries)"

text \<open>
  A regular file of 42 bytes, mode 0644, modified one hour before the clock reading of
  \<^const>\<open>exampleEnv\<close>, owned by user 9999 and group 4242, and a directory of mode 0755
  owned by user 0 and group 0.
\<close>

definition infoNotes :: fileInfo where
  "infoNotes = \<lparr>Size = 42, Mode = 0x1A4, ModTime = 1699996400000000000, Blocks = 8,
                 Nlink = 1, Uid = 9999, Gid = 4242\<rparr>"

definition fileNotes :: dirEntry where
  "fileNotes = \<lparr>Name = ''notes.txt'', IsDir = False, Info = Inr infoNotes\<rparr>"

definition infoSrc :: fileInfo where
  "infoSrc = \<lparr>Size = 4096, Mode = 0x800001ED, ModTime = 1699996400000000000, Blocks = 9,
               Nlink = 2, Uid = 0, Gid = 0\<rparr>"

definition dirSrc :: dirEntry where
  "dirSrc = \<lparr>Name = ''src'', IsDir = True, Info = Inr infoSrc\<rparr>"

text \<open>A list is in the order of the specification when no entry precedes one it should follow.\<close>

definition specSorted :: "(string \<Rightarrow> string) \<Rightarrow> dirEntry list \<Rightarrow> bool" where
  "specSorted uni entries = sorted_wrt (\<lambda>a b. \<not> specEntryLess uni b a) entries"

section \<open>sort.Slice on a short slice\<close>

text \<open>
  For a slice of at most 12 elements \<^verbatim>\<open>sort.Slice\<close> does not partition. In the releases
  Go 1.16 to 1.18 (\<^verbatim>\<open>quickSort_func\<close>) it makes one pass
  \<^verbatim>\<open>for i := a + 6; i < b; i++ { if less(i, i-6) { swap(i, i-6) } }\<close> and then calls
  \<^verbatim>\<open>insertionSort_func\<close>; from Go 1.19 on (\<^verbatim>\<open>pdqsort_func\<close>) it calls the insertion sort
  alone. The insertion sort is
  \<^verbatim>\<open>for i := a + 1; i < b; i++ { for j := i; j > a && less(j, j-1); j-- { swap(j, j-1) } }\<close>.
  The slice is the list, \<open>a\<close> is 0 and \<open>b\<close> its length. What the library does with a longer
  slice (the partitioning loops) is the parameter \<open>partitioning\<close>.
\<close>

definition swapAt :: "nat \<Rightarrow> nat \<Rightarrow> 'a list \<Rightarrow> 'a list" where
  "swapAt i j xs = xs[i := xs ! j, j := xs ! i]"

fun sinkLeft :: "('a \<Rightarrow> 'a \<Rightarrow> bool) \<Rightarrow> nat \<Rightarrow> 'a list \<Rightarrow> 'a list" where
  "sinkLeft lt 0 xs = xs"
| "sinkLeft lt (Suc j) xs =
     (if lt (xs ! Suc j) (xs ! j) then sinkLeft lt j (swapAt (Suc j) j xs) else xs)"

definition insertionSortFunc :: "('a \<Rightarrow> 'a \<Rightarrow> bool) \<Rightarrow> 'a list \<Rightarrow> 'a list" where
  "insertionSortFunc lt xs = fold (sinkLeft lt) [1..<length xs] xs"

definition shellPass6 :: "('a \<Rightarrow> 'a \<Rightarrow> bool) \<Rightarrow> 'a list \<Rightarrow> 'a list" where
  "shellPass6 lt xs =
     fold (\<lambda>i ys. if lt (ys ! i) (ys ! (i - 6)) then swapAt i (i - 6) ys else ys)
       [6..<length xs] xs"

definition sortSlice118 ::
  "(('a \<Rightarrow> 'a \<Rightarrow> bool) \<Rightarrow> 'a list \<Rightarrow> 'a list) \<Rightarrow> ('a \<Rightarrow> 'a \<Rightarrow> bool) \<Rightarrow> 'a list \<Rightarrow> 'a list" where
  "sortSlice118 partitioning lt xs =
     (if 12 < length xs then partitioning lt xs
      else if 1 < length xs then insertionSortFunc lt (shellPass6 lt xs)
      else xs)"

definition sortSlice119 ::
  "(('a \<Rightarrow> 'a \<Rightarrow> bool) \<Rightarrow> 'a list \<Rightarrow> 'a list) \<Rightarrow> ('a \<Rightarrow> 'a \<Rightarrow> bool) \<Rightarrow> 'a list \<Rightarrow> 'a list" where
  "sortSlice119 partitioning lt xs =
     (if 12 < length xs then partitioning lt xs else insertionSortFunc lt xs)"

text \<open>
  The insertion of one element into the part before it, read on the reversed part: the
  element passes every element it is less than.
\<close>

fun insertRev :: "('a \<Rightarrow> 'a \<Rightarrow> bool) \<Rightarrow> 'a \<Rightarrow> 'a list \<Rightarrow> 'a list" where
  "insertRev lt x [] = [x]"
| "insertRev lt x (y # ys) = (if lt x y then y # insertRev lt x ys else x # y # ys)"

text \<open>
  Seven files in the order in which \<^verbatim>\<open>os.ReadDir\<close> returns them (sorted by file name,
  byte by byte), and the environment of \<^const>\<open>exampleEnv\<close> with the sort of Go 1.16 to 1.18.
  The seven names are the lowercase-equal pair \<^verbatim>\<open>Ba\<close>, \<^verbatim>\<open>bA\<close> and five others.
\<close>

definition fileBa :: dirEntry where
  "fileBa = \<lparr>Name = ''Ba'', IsDir = False, Info = noInfo\<rparr>"

definition fileBb :: dirEntry where
  "fileBb = \<lparr>Name = ''Bb'', IsDir = False, Info = noInfo\<rparr>"

definition fileBc :: dirEntry where
  "fileBc = \<lparr>Name = ''Bc'', IsDir = False, Info = noInfo\<rparr>"

definition fileBd :: dirEntry where
  "fileBd = \<lparr>Name = ''Bd'', IsDir = False, Info = noInfo\<rparr>"

definition fileBe :: dirEntry where
  "fileBe = \<lparr>Name = ''Be'', IsDir = False, Info = noInfo\<rparr>"

definition fileLowerB_A :: dirEntry where
  "fileLowerB_A = \<lparr>Name = ''bA'', IsDir = False, Info = noInfo\<rparr>"

definition fileLowerB_us :: dirEntry where
  "fileLowerB_us = \<lparr>Name = ''b_'', IsDir = False, Info = noInfo\<rparr>"

definition sevenFiles :: "dirEntry list" where
  "sevenFiles = [fileBa, fileBb, fileBc, fileBd, fileBe, fileLowerB_A, fileLowerB_us]"

definition exampleEnv118 :: "dirEntry list \<Rightarrow> error + int \<times> int \<Rightarrow> env" where
  "exampleEnv118 listing probe =
     (exampleEnv listing probe)\<lparr>sortSlice := sortSlice118 insertionSort\<rparr>"

definition exampleEnv119 :: "dirEntry list \<Rightarrow> error + int \<times> int \<Rightarrow> env" where
  "exampleEnv119 listing probe =
     (exampleEnv listing probe)\<lparr>sortSlice := sortSlice119 insertionSort\<rparr>"

definition sevenSorted118 :: "dirEntry list" where
  "sevenSorted118 = [fileLowerB_us, fileLowerB_A, fileBa, fileBb, fileBc, fileBd, fileBe]"

text \<open>
  Two regular files like \<^const>\<open>fileNotes\<close>, modified \<open>6 * 30 * 24\<close> hours and one nanosecond,
  and \<open>6 * 30 * 24\<close> hours and two nanoseconds, before the clock reading of \<^const>\<open>exampleEnv\<close>.
\<close>

definition infoOld :: fileInfo where
  "infoOld = \<lparr>Size = 42, Mode = 0x1A4, ModTime = 1684447999999999999, Blocks = 8,
               Nlink = 1, Uid = 9999, Gid = 4242\<rparr>"

definition fileOld :: dirEntry where
  "fileOld = \<lparr>Name = ''old.txt'', IsDir = False, Info = Inr infoOld\<rparr>"

definition infoOlder :: fileInfo where
  "infoOlder = \<lparr>Size = 42, Mode = 0x1A4, ModTime = 1684447999999999998, Blocks = 8,
                 Nlink = 1, Uid = 9999, Gid = 4242\<rparr>"

definition fileOlder :: dirEntry where
  "fileOlder = \<lparr>Name = ''older.txt'', IsDir = False, Info = Inr infoOlder\<rparr>"

section \<open>Properties of the icon classifier\<close>

lemma getFileNameWithIcon_table:
  "getFileNameWithIcon uni e =
     (if IsDir e then iconFolder
      else case exactNameIcon (Name e) of
             Some i \<Rightarrow> i
           | None \<Rightarrow> getIcon (ToLower uni (Ext (Name e)))) @ Name e"
  by (simp add: getFileNameWithIcon_def exactNameIcon_def exactNameTable_def Let_def)

lemma exactNameIcon_None_iff:
  "exactNameIcon n = None \<longleftrightarrow> n \<notin> fst ` set exactNameTable"
  by (simp add: exactNameIcon_def map_of_eq_None_iff)

lemma exactNameIcon_go_mod: "exactNameIcon ''go.mod'' = Some iconGo"
  by (simp add: exactNameIcon_def exactNameTable_def)

lemma exactNameIcon_A_md: "exactNameIcon ''A.md'' = None"
  by (simp add: exactNameIcon_def exactNameTable_def)

lemma exactNameIcon_c: "exactNameIcon ''c'' = None"
  by (simp add: exactNameIcon_def exactNameTable_def)

lemma lower_ext_A_md: "ToLower id (Ext ''A.md'') = ''.md''"
  by (simp add: ToLower_def Ext_def lowerByte_def)

lemma iconMap_md: "iconMap ''.md'' = Some iconMarkdown"
  by (simp add: iconMap_def iconTable_def iconMarkdown_def)

lemma iconMap_ext_c: "iconMap (ToLower id (Ext ''c'')) = None"
  by (simp add: ToLower_def Ext_def iconMap_def iconTable_def)

lemma dirPhotos_simps: "Name dirPhotos = ''photos.png''" "IsDir dirPhotos"
  by (simp_all add: dirPhotos_def)

lemma fileGoMod_simps: "Name fileGoMod = ''go.mod''" "\<not> IsDir fileGoMod"
  by (simp_all add: fileGoMod_def)

lemma fileAmd_simps: "Name fileAmd = ''A.md''" "\<not> IsDir fileAmd"
  by (simp_all add: fileAmd_def)

lemma fileC_simps: "Name fileC = ''c''" "\<not> IsDir fileC"
  by (simp_all add: fileC_def)

text \<open>
  C2. The symbol is decided in a fixed order, the first match winning: a directory gets
  the directory symbol whatever its name or extension; a file whose name is one of the
  exact names gets the symbol of that rule, whatever its extension; any other file gets the
  symbol the table has for its lowercased extension, and the generic symbol when the table
  has none. The result depends on the name and the directory flag only.
\<close>

theorem icon_priority:
  "(IsDir e \<longrightarrow> getFileNameWithIcon uni e = iconFolder @ Name e)
   \<and> (\<not> IsDir e \<and> exactNameIcon (Name e) = Some i
        \<longrightarrow> getFileNameWithIcon uni e = i @ Name e)
   \<and> (\<not> IsDir e \<and> exactNameIcon (Name e) = None
          \<and> iconMap (ToLower uni (Ext (Name e))) = Some j
        \<longrightarrow> getFileNameWithIcon uni e = j @ Name e)
   \<and> (\<not> IsDir e \<and> exactNameIcon (Name e) = None
          \<and> iconMap (ToLower uni (Ext (Name e))) = None
        \<longrightarrow> getFileNameWithIcon uni e = iconFile @ Name e)
   \<and> (Name e' = Name e \<and> IsDir e' = IsDir e
        \<longrightarrow> getFileNameWithIcon uni e' = getFileNameWithIcon uni e)"
proof (intro conjI impI)
  assume "IsDir e"
  then show "getFileNameWithIcon uni e = iconFolder @ Name e"
    by (simp add: getFileNameWithIcon_table)
next
  assume "\<not> IsDir e \<and> exactNameIcon (Name e) = Some i"
  then show "getFileNameWithIcon uni e = i @ Name e"
    by (simp add: getFileNameWithIcon_table)
next
  assume "\<not> IsDir e \<and> exactNameIcon (Name e) = None
          \<and> iconMap (ToLower uni (Ext (Name e))) = Some j"
  then show "getFileNameWithIcon uni e = j @ Name e"
    by (simp add: getFileNameWithIcon_table getIcon_def)
next
  assume "\<not> IsDir e \<and> exactNameIcon (Name e) = None
          \<and> iconMap (ToLower uni (Ext (Name e))) = None"
  then show "getFileNameWithIcon uni e = iconFile @ Name e"
    by (simp add: getFileNameWithIcon_table getIcon_def)
next
  assume "Name e' = Name e \<and> IsDir e' = IsDir e"
  then show "getFileNameWithIcon uni e' = getFileNameWithIcon uni e"
    unfolding getFileNameWithIcon_def by (elim conjE) (simp only:)
qed

theorem icon_priority_witness:
  "getFileNameWithIcon id dirPhotos = iconFolder @ ''photos.png''
   \<and> getFileNameWithIcon id fileGoMod = iconGo @ ''go.mod''
   \<and> getFileNameWithIcon id fileAmd = iconMarkdown @ ''A.md''
   \<and> getFileNameWithIcon id fileC = iconFile @ ''c''
   \<and> getFileNameWithIcon id (fileC\<lparr>Info := Inl (Error ''gone'')\<rparr>)
       = getFileNameWithIcon id fileC"
proof (intro conjI)
  show "getFileNameWithIcon id dirPhotos = iconFolder @ ''photos.png''"
    using icon_priority [where e = dirPhotos and uni = id, THEN conjunct1] dirPhotos_simps
    by (simp only:)
  show "getFileNameWithIcon id fileGoMod = iconGo @ ''go.mod''"
    using icon_priority [where e = fileGoMod and uni = id and i = iconGo,
        THEN conjunct2, THEN conjunct1] fileGoMod_simps exactNameIcon_go_mod
    by (simp only: simp_thms)
  show "getFileNameWithIcon id fileAmd = iconMarkdown @ ''A.md''"
    using icon_priority [where e = fileAmd and uni = id and j = iconMarkdown,
        THEN conjunct2, THEN conjunct2, THEN conjunct1]
      fileAmd_simps exactNameIcon_A_md lower_ext_A_md iconMap_md
    by (simp only: simp_thms)
  show "getFileNameWithIcon id fileC = iconFile @ ''c''"
    using icon_priority [where e = fileC and uni = id,
        THEN conjunct2, THEN conjunct2, THEN conjunct2, THEN conjunct1]
      fileC_simps exactNameIcon_c iconMap_ext_c
    by (simp only: simp_thms)
  show "getFileNameWithIcon id (fileC\<lparr>Info := Inl (Error ''gone'')\<rparr>)
        = getFileNameWithIcon id fileC"
    using icon_priority [where e = fileC and uni = id
        and e' = "fileC\<lparr>Info := Inl (Error ''gone'')\<rparr>",
        THEN conjunct2, THEN conjunct2, THEN conjunct2, THEN conjunct2]
    by simp
qed

lemma exactNameTable_keys:
  "fst ` set exactNameTable =
     {''go.mod'', ''go.sum'', ''Dockerfile'', ''docker-compose.yml'', ''.dockerignore'',
      ''cargo.toml'', ''.github'', ''.gitignore'', ''Makefile''}"
  by (simp add: exactNameTable_def)

lemma ToLower_ascii:
  "list_all (\<lambda>c. c < CHR 0x80) s \<Longrightarrow> ToLower uni s = map lowerByte s"
  by (simp add: ToLower_def)

text \<open>
  C8. For an entry that is not a directory: a name that is byte for byte one of the nine
  literals of the switch gets the symbol of that rule; any other name, also one that
  differs from a literal only in case, goes to the extension table, and the extension
  looked up there is the lowercased one (for an ASCII extension, each byte \<^verbatim>\<open>A..Z\<close>
  replaced by its lowercase letter), so extensions that differ in case get the same symbol.
\<close>

theorem extension_folded_names_exact:
  assumes "\<not> IsDir e"
  shows "(Name e \<in> {''go.mod'', ''go.sum'', ''Dockerfile'', ''docker-compose.yml'',
                    ''.dockerignore'', ''cargo.toml'', ''.github'', ''.gitignore'', ''Makefile''}
          \<longrightarrow> (\<exists>i. (Name e, i) \<in> set exactNameTable
                   \<and> getFileNameWithIcon uni e = i @ Name e))
       \<and> (Name e \<notin> {''go.mod'', ''go.sum'', ''Dockerfile'', ''docker-compose.yml'',
                    ''.dockerignore'', ''cargo.toml'', ''.github'', ''.gitignore'', ''Makefile''}
          \<longrightarrow> getFileNameWithIcon uni e = getIcon (ToLower uni (Ext (Name e))) @ Name e)
       \<and> (list_all (\<lambda>c. c < CHR 0x80) (Ext (Name e))
          \<longrightarrow> ToLower uni (Ext (Name e)) = map lowerByte (Ext (Name e)))"
proof (intro conjI impI)
  assume "Name e \<in> {''go.mod'', ''go.sum'', ''Dockerfile'', ''docker-compose.yml'',
                    ''.dockerignore'', ''cargo.toml'', ''.github'', ''.gitignore'', ''Makefile''}"
  then have "Name e \<in> fst ` set exactNameTable"
    unfolding exactNameTable_keys .
  then obtain i where i: "exactNameIcon (Name e) = Some i"
    using exactNameIcon_None_iff [of "Name e"] by (cases "exactNameIcon (Name e)") auto
  then have "(Name e, i) \<in> set exactNameTable"
    unfolding exactNameIcon_def by (rule map_of_SomeD)
  moreover have "getFileNameWithIcon uni e = i @ Name e"
    using assms i by (simp add: getFileNameWithIcon_table)
  ultimately show "\<exists>i. (Name e, i) \<in> set exactNameTable
                   \<and> getFileNameWithIcon uni e = i @ Name e"
    by blast
next
  assume "Name e \<notin> {''go.mod'', ''go.sum'', ''Dockerfile'', ''docker-compose.yml'',
                    ''.dockerignore'', ''cargo.toml'', ''.github'', ''.gitignore'', ''Makefile''}"
  then have "Name e \<notin> fst ` set exactNameTable"
    unfolding exactNameTable_keys .
  then have "exactNameIcon (Name e) = None"
    by (simp only: exactNameIcon_None_iff simp_thms)
  then show "getFileNameWithIcon uni e = getIcon (ToLower uni (Ext (Name e))) @ Name e"
    using assms by (simp add: getFileNameWithIcon_table)
next
  assume "list_all (\<lambda>c. c < CHR 0x80) (Ext (Name e))"
  then show "ToLower uni (Ext (Name e)) = map lowerByte (Ext (Name e))"
    by (rule ToLower_ascii)
qed

lemma fileBTXT_simps: "Name fileBTXT = ''b.TXT''" "\<not> IsDir fileBTXT" by (simp_all add: fileBTXT_def)
lemma fileBtxt_simps: "Name fileBtxt = ''b.txt''" "\<not> IsDir fileBtxt" by (simp_all add: fileBtxt_def)
lemma fileMakefile_simps: "Name fileMakefile = ''Makefile''" "\<not> IsDir fileMakefile" by (simp_all add: fileMakefile_def)
lemma fileMakefileLower_simps: "Name fileMakefileLower = ''makefile''" "\<not> IsDir fileMakefileLower" by (simp_all add: fileMakefileLower_def)

lemma Ext_examples: "Ext ''b.TXT'' = ''.TXT''" "Ext ''b.txt'' = ''.txt''" "Ext ''makefile'' = []"
  by (simp_all add: Ext_def)
lemma lowerByte_examples: "map lowerByte ''.TXT'' = ''.txt''" "map lowerByte ''.txt'' = ''.txt''"
  by code_simp+
lemma getIcon_examples: "getIcon ''.txt'' = iconText" "getIcon [] = iconFile"
  by (simp_all add: getIcon_def iconMap_def iconTable_def iconText_def)
lemma ToLower_Nil: "ToLower id [] = []" by (simp add: ToLower_def)
lemma ascii_examples: "list_all (\<lambda>c. c < CHR 0x80) ''.TXT''" "list_all (\<lambda>c. c < CHR 0x80) ''.txt''"
  by simp_all
lemma exactNameTable_Makefile: "(''Makefile'', i) \<in> set exactNameTable \<longleftrightarrow> i = iconMakefile"
  by (auto simp add: exactNameTable_def)

theorem extension_folded_names_exact_witness:
  "getFileNameWithIcon id fileBTXT = iconText @ ''b.TXT''
   \<and> getFileNameWithIcon id fileBtxt = iconText @ ''b.txt''
   \<and> getFileNameWithIcon id fileMakefile = iconMakefile @ ''Makefile''
   \<and> getFileNameWithIcon id fileMakefileLower = iconFile @ ''makefile''"
proof (intro conjI)
  note t1 = extension_folded_names_exact [where e = fileBTXT and uni = id, OF fileBTXT_simps(2)]
  have "ToLower id (Ext ''b.TXT'') = ''.txt''"
    using t1 [THEN conjunct2, THEN conjunct2] fileBTXT_simps Ext_examples lowerByte_examples ascii_examples by (simp only: simp_thms)
  then show "getFileNameWithIcon id fileBTXT = iconText @ ''b.TXT''"
    using t1 [THEN conjunct2, THEN conjunct1] fileBTXT_simps getIcon_examples by simp
  note t2 = extension_folded_names_exact [where e = fileBtxt and uni = id, OF fileBtxt_simps(2)]
  have "ToLower id (Ext ''b.txt'') = ''.txt''"
    using t2 [THEN conjunct2, THEN conjunct2] fileBtxt_simps Ext_examples lowerByte_examples ascii_examples by (simp only: simp_thms)
  then show "getFileNameWithIcon id fileBtxt = iconText @ ''b.txt''"
    using t2 [THEN conjunct2, THEN conjunct1] fileBtxt_simps getIcon_examples by simp
  note t3 = extension_folded_names_exact [where e = fileMakefile and uni = id, OF fileMakefile_simps(2)]
  show "getFileNameWithIcon id fileMakefile = iconMakefile @ ''Makefile''"
    using t3 [THEN conjunct1] fileMakefile_simps exactNameTable_Makefile by simp
  note t4 = extension_folded_names_exact [where e = fileMakefileLower and uni = id, OF fileMakefileLower_simps(2)]
  show "getFileNameWithIcon id fileMakefileLower = iconFile @ ''makefile''"
    using t4 [THEN conjunct2, THEN conjunct1] fileMakefileLower_simps Ext_examples getIcon_examples ToLower_Nil by simp
qed

section \<open>Properties of the compact layout\<close>


lemma maxLenFrom_nonneg: "0 \<le> m \<Longrightarrow> 0 \<le> maxLenFrom m names"
  by (induction names arbitrary: m) auto


lemma effectiveWidth_ge: "20 \<le> effectiveWidth probe"
  by (auto simp add: effectiveWidth_def split: sum.splits)

lemma sdiv_nonneg: "0 \<le> (w::int) \<Longrightarrow> 0 < c \<Longrightarrow> w sdiv c = w div c"
  by (simp add: signed_divide_int_def sgn_if)

lemma columnCount_floor:
  assumes "0 \<le> w" "0 < c"
  shows "columnCount w c = Inr (max 1 (w div c))"
proof -
  have "0 \<le> w div c" using assms by (simp add: pos_imp_zdiv_nonneg_iff)
  then show ?thesis
    using assms by (auto simp add: columnCount_def sdiv_nonneg Let_def max_def)
qed


lemma printMultiColumn_eq:
  "printMultiColumn env entries =
     Inr (printColumns (RuneCountInString env)
            (maxLenFrom 0 (map (getFileNameWithIcon (unicodeLower env)) entries) + 2)
            (max 1 (effectiveWidth (GetSize env)
                    div (maxLenFrom 0 (map (getFileNameWithIcon (unicodeLower env)) entries) + 2)))
            (length entries) 0 (map (getFileNameWithIcon (unicodeLower env)) entries))"
proof -
  let ?names = "map (getFileNameWithIcon (unicodeLower env)) entries"
  have c: "0 < maxLenFrom 0 ?names + 2"
    using maxLenFrom_nonneg [of 0 ?names] by simp
  have w: "0 \<le> effectiveWidth (GetSize env)"
    using effectiveWidth_ge [of "GetSize env"] by simp
  show ?thesis
    by (simp add: printMultiColumn_def Let_def columnCount_floor [OF w c])
qed




lemma printed_abcdef:
  "printColumns countRunes 12 6 1 0 [iconFile @ ''abcdef'']
   = iconFile @ ''abcdef'' @ ''    '' @ newline"
  by (simp add: countRunes_def iconFile_def newline_def padRight_def signed_modulo_int_def
      eval_nat_numeral)

text \<open>
  C10. The compact layout of an empty listing writes nothing, and the layout never fails:
  the divisor of the column count is the longest name plus 2, so it is at least 2, the
  division is defined and the column count is not zero.
\<close>

theorem compact_layout_total:
  "printMultiColumn env [] = Inr []
   \<and> (\<exists>out. printMultiColumn env entries = Inr out)
   \<and> 2 \<le> maxLenFrom 0 (map (getFileNameWithIcon (unicodeLower env)) entries) + 2
   \<and> (\<exists>cols. columnCount width
          (maxLenFrom 0 (map (getFileNameWithIcon (unicodeLower env)) entries) + 2) = Inr cols
        \<and> cols \<noteq> 0)"
proof -
  let ?names = "map (getFileNameWithIcon (unicodeLower env)) entries"
  have c: "0 \<le> maxLenFrom 0 ?names"
    using maxLenFrom_nonneg [of 0 ?names] by simp
  have "printMultiColumn env [] = Inr []"
    by (simp add: printMultiColumn_eq)
  moreover have "\<exists>out. printMultiColumn env entries = Inr out"
    by (simp add: printMultiColumn_eq)
  moreover have "\<exists>cols. columnCount width (maxLenFrom 0 ?names + 2) = Inr cols \<and> cols \<noteq> 0"
    using c by (simp add: columnCount_def Let_def)
  ultimately show ?thesis using c by simp
qed

section \<open>Properties of the long format and of Run\<close>

lemma int64_id: "- (2 ^ 63) \<le> x \<Longrightarrow> x < 2 ^ 63 \<Longrightarrow> int64 x = x"
  by (simp add: int64_def)

lemma wrap_add_left:
  "(((a + H) mod M - H) + b + H) mod M = (a + b + H) mod (M::int)"
proof -
  have "((a + H) mod M - H) + b + H = (a + H) mod M + b" by simp
  moreover have "((a + H) mod M + b) mod M = (a + H + b) mod M"
    by (rule mod_add_left_eq)
  moreover have "a + H + b = a + b + H" by simp
  ultimately show ?thesis by simp
qed

lemma int64_add_left: "int64 (int64 a + b) = int64 (a + b)"
  unfolding int64_def by (simp only: wrap_add_left)

lemma statInfos_Cons:
  "statInfos (e # es) = (case Info e of Inl err \<Rightarrow> [] | Inr info \<Rightarrow> [info]) @ statInfos es"
  by (simp add: statInfos_def)

lemma statInfos_Nil: "statInfos [] = []"
  by (simp add: statInfos_def)

lemma sumBlocks_int64:
  "sumBlocks (int64 t) entries = int64 (t + sum_list (map Blocks (statInfos entries)))"
proof (induction entries arbitrary: t)
  case Nil
  show ?case by (simp add: statInfos_Nil)
next
  case (Cons e es)
  show ?case
  proof (cases "Info e")
    case (Inl err)
    then show ?thesis using Cons [of t] by (simp add: statInfos_Cons)
  next
    case (Inr info)
    have "sumBlocks (int64 t) (e # es) = sumBlocks (int64 (t + Blocks info)) es"
      using Inr by (simp add: int64_add_left)
    also have "\<dots> = int64 (t + Blocks info + sum_list (map Blocks (statInfos es)))"
      by (rule Cons)
    finally show ?thesis using Inr by (simp add: statInfos_Cons add.assoc)
  qed
qed

lemma sumBlocks_0:
  "sumBlocks 0 entries = int64 (sum_list (map Blocks (statInfos entries)))"
  using sumBlocks_int64 [of 0 entries] by (simp add: int64_def)

lemma sdiv_2_nonneg: "0 \<le> (x::int) \<Longrightarrow> x sdiv 2 = x div 2"
  by (simp add: signed_divide_int_def sgn_if)

text \<open>
  C6. The header of the long format is \<^verbatim>\<open>total\<close>, a space and a number: the sum, as the
  int64 the code accumulates, of the block counts of the entries whose \<^verbatim>\<open>Info()\<close>
  succeeded, the failed entries left out, divided by 2. When the block counts are not
  negative and their sum fits an int64 this is the mathematical sum halved and rounded
  down. \<^verbatim>\<open>Run\<close> writes the header of the sorted listing before the lines of the entries.
\<close>

theorem total_blocks_header:
  "printTotalBlocks entries =
     ''total '' @ showInt (int64 (sum_list (map Blocks (statInfos entries))) sdiv 2) @ newline
   \<and> ((\<forall>info \<in> set (statInfos entries). 0 \<le> Blocks info)
        \<and> sum_list (map Blocks (statInfos entries)) < 2 ^ 63
      \<longrightarrow> printTotalBlocks entries =
            ''total '' @ showNat (nat (sum_list (map Blocks (statInfos entries)) div 2)) @ newline)
   \<and> (ReadDir env (case args of [] \<Rightarrow> ''.'' | a # rest \<Rightarrow> a) = Inr listing
      \<longrightarrow> Run env True args =
            Inr \<lparr>stdout = printTotalBlocks (sortSlice env (entryLess (unicodeLower env)) listing)
                          @ printEntries env 0 (sortSlice env (entryLess (unicodeLower env)) listing),
                 stderr = []\<rparr>)"
proof (intro conjI impI)
  show "printTotalBlocks entries =
     ''total '' @ showInt (int64 (sum_list (map Blocks (statInfos entries))) sdiv 2) @ newline"
    by (simp add: printTotalBlocks_def sumBlocks_0)
next
  assume a: "(\<forall>info \<in> set (statInfos entries). 0 \<le> Blocks info)
        \<and> sum_list (map Blocks (statInfos entries)) < 2 ^ 63"
  let ?s = "sum_list (map Blocks (statInfos entries))"
  have nn: "0 \<le> ?s" using a by (intro sum_list_nonneg) auto
  then have "int64 ?s = ?s" using a by (intro int64_id) auto
  moreover have "0 \<le> ?s div 2" using nn by simp
  ultimately show "printTotalBlocks entries = ''total '' @ showNat (nat (?s div 2)) @ newline"
    using nn by (simp add: printTotalBlocks_def sumBlocks_0 sdiv_2_nonneg showInt_def)
next
  assume "ReadDir env (case args of [] \<Rightarrow> ''.'' | a # rest \<Rightarrow> a) = Inr listing"
  then show "Run env True args =
            Inr \<lparr>stdout = printTotalBlocks (sortSlice env (entryLess (unicodeLower env)) listing)
                          @ printEntries env 0 (sortSlice env (entryLess (unicodeLower env)) listing),
                 stderr = []\<rparr>"
    by (simp add: Run_def Let_def)
qed

lemma statInfos_example: "statInfos [fileNotes, fileC, dirSrc] = [infoNotes, infoSrc]"
  by (simp add: statInfos_def fileNotes_def fileC_def dirSrc_def noInfo_def)

lemma digitChar_simps:
  "digitChar 0 = CHR ''0''" "digitChar 1 = CHR ''1''" "digitChar 2 = CHR ''2''"
  "digitChar 3 = CHR ''3''" "digitChar 4 = CHR ''4''" "digitChar 5 = CHR ''5''"
  "digitChar 6 = CHR ''6''" "digitChar 7 = CHR ''7''" "digitChar 8 = CHR ''8''"
  "digitChar 9 = CHR ''9''"
  by code_simp+

lemma showNat_8: "showNat 8 = ''8''"
  by (simp add: showNat.simps digitChar_simps)




lemma lower_examples:
  "ToLower id ''notes.txt'' = ''notes.txt''" "ToLower id ''c'' = ''c''"
  "ToLower id ''src'' = ''src''"
  by (simp_all add: ToLower_def lowerByte_def)

lemma string_less_examples:
  "''c'' < ''notes.txt''" "\<not> ''notes.txt'' < ''c''" "''notes.txt'' < ''src''"
  "\<not> ''src'' < ''notes.txt''" "''c'' < ''src''" "\<not> ''src'' < ''c''"
  by simp_all

lemma sorted_example:
  "insertionSort (entryLess id) [fileNotes, fileC, dirSrc] = [fileC, fileNotes, dirSrc]"
  by (simp add: insertionSort_def entryLess_def fileNotes_def fileC_def dirSrc_def
      lower_examples string_less_examples)


lemma ownerName_fallback:
  "LookupId env (showNat (Uid info)) = Inl err \<Longrightarrow> ownerName env info = showNat (Uid info)"
  by (simp add: ownerName_def Let_def)

lemma groupName_fallback:
  "LookupGroupId env (showNat (Gid info)) = Inl err \<Longrightarrow> groupName env info = showNat (Gid info)"
  by (simp add: groupName_def Let_def)

lemma showNat_9999: "showNat 9999 = ''9999''"
  by (simp add: showNat.simps digitChar_simps)

lemma showNat_4242: "showNat 4242 = ''4242''"
  by (simp add: showNat.simps digitChar_simps)

text \<open>
  C9. For an entry whose stat succeeded: when the lookup of the user id fails, the owner
  field of the long-format line is the id in decimal, and likewise for the group; the line
  is written all the same. A user id 9999 that cannot be resolved gives the owner field
  \<^verbatim>\<open>9999\<close>.
\<close>

theorem owner_group_fallback:
  assumes "Info e = Inr info"
  shows "(LookupId env (showNat (Uid info)) = Inl err
            \<longrightarrow> ownerName env info = showNat (Uid info))
       \<and> (LookupGroupId env (showNat (Gid info)) = Inl err'
            \<longrightarrow> groupName env info = showNat (Gid info))
       \<and> printDetailedEntry env now e =
            permsOf info @ '' '' @ showNat (Nlink info) @ '' '' @ ownerName env info @ '' ''
            @ groupName env info @ '' '' @ padLeft 4 (showInt (Size info)) @ '' ''
            @ TimeFormat env (timeFormatFor now (ModTime info)) (ModTime info) @ '' ''
            @ getFileNameWithIcon (unicodeLower env) e @ newline
       \<and> (Uid info = 9999 \<and> LookupId env ''9999'' = Inl err
            \<longrightarrow> ownerName env info = ''9999'')"
proof (intro conjI impI)
  assume "LookupId env (showNat (Uid info)) = Inl err"
  then show "ownerName env info = showNat (Uid info)" by (rule ownerName_fallback)
next
  assume "LookupGroupId env (showNat (Gid info)) = Inl err'"
  then show "groupName env info = showNat (Gid info)" by (rule groupName_fallback)
next
  show "printDetailedEntry env now e =
            permsOf info @ '' '' @ showNat (Nlink info) @ '' '' @ ownerName env info @ '' ''
            @ groupName env info @ '' '' @ padLeft 4 (showInt (Size info)) @ '' ''
            @ TimeFormat env (timeFormatFor now (ModTime info)) (ModTime info) @ '' ''
            @ getFileNameWithIcon (unicodeLower env) e @ newline"
    using assms by (simp add: printDetailedEntry_def)
next
  assume a: "Uid info = 9999 \<and> LookupId env ''9999'' = Inl err"
  then have "LookupId env (showNat (Uid info)) = Inl err"
    by (simp add: showNat_9999)
  then have "ownerName env info = showNat (Uid info)" by (rule ownerName_fallback)
  then show "ownerName env info = ''9999''" using a by (simp add: showNat_9999)
qed

lemma exampleEnv_simps:
  "LookupId (exampleEnv listing probe) ''9999'' = Inl (Error ''user: unknown userid'')"
  "LookupGroupId (exampleEnv listing probe) ''4242'' = Inl (Error ''group: unknown groupid'')"
  "ReadDir (exampleEnv listing probe) ''.'' = Inr listing"
  "ReadDir (exampleEnv listing probe) ''/nonexistent'' = Inl (Error ''open: no such file or directory'')"
  "sortSlice (exampleEnv listing probe) = insertionSort"
  "unicodeLower (exampleEnv listing probe) = id"
  "Now (exampleEnv listing probe) i = 1700000000000000000"
  "TimeFormat (exampleEnv listing probe) layout t = layout"
  "GetSize (exampleEnv listing probe) = probe"
  "RuneCountInString (exampleEnv listing probe) = countRunes"
  by (simp_all add: exampleEnv_def)

lemma fileNotes_simps:
  "Info fileNotes = Inr infoNotes" "Name fileNotes = ''notes.txt''" "\<not> IsDir fileNotes"
  by (simp_all add: fileNotes_def)

lemma infoNotes_simps:
  "Uid infoNotes = 9999" "Gid infoNotes = 4242" "Nlink infoNotes = 1" "Size infoNotes = 42"
  "ModTime infoNotes = 1699996400000000000" "Mode infoNotes = 0x1A4" "Blocks infoNotes = 8"
  by (simp_all add: infoNotes_def)

theorem owner_group_fallback_witness:
  "ownerName (exampleEnv [fileNotes] (Inr (80, 24))) infoNotes = ''9999''
   \<and> groupName (exampleEnv [fileNotes] (Inr (80, 24))) infoNotes = ''4242''"
proof -
  note t = owner_group_fallback [OF fileNotes_simps(1),
      where env = "exampleEnv [fileNotes] (Inr (80, 24))"
        and err = "Error ''user: unknown userid''"
        and err' = "Error ''group: unknown groupid''"]
  have "ownerName (exampleEnv [fileNotes] (Inr (80, 24))) infoNotes = ''9999''"
    using t [THEN conjunct2, THEN conjunct2, THEN conjunct2]
    by (simp add: infoNotes_simps exampleEnv_simps)
  moreover have "groupName (exampleEnv [fileNotes] (Inr (80, 24))) infoNotes = ''4242''"
    using t [THEN conjunct2, THEN conjunct1]
    by (simp add: infoNotes_simps exampleEnv_simps showNat_4242)
  ultimately show ?thesis by simp
qed


lemma permsOf_examples: "permsOf infoNotes = ''-rw-r--r--''" "permsOf infoSrc = ''drwxr-xr-x''"
  by code_simp+

lemma timeFormatFor_example:
  "timeFormatFor 1700000000000000000 1699996400000000000 = ''Jan _2 15:04''"
  by code_simp

lemma showNat_small: "showNat (Suc 0) = ''1''" "showNat 42 = ''42''" "showNat 0 = ''0''"
  using digitChar_simps(2) by (simp_all add: showNat.simps digitChar_simps)

lemma showInt_42: "showInt 42 = ''42''"
  by (simp add: showInt_def showNat_small)

lemma padLeft_42: "padLeft 4 (showInt 42) = ''  42''"
  unfolding padLeft_def showInt_42 by (simp add: eval_nat_numeral)

lemma icon_notes: "getFileNameWithIcon id fileNotes = [CHR 0xEF, CHR 0x85, CHR 0x9C, CHR 0x20] @ ''notes.txt''"
  by (simp add: getFileNameWithIcon_def fileNotes_def Ext_def ToLower_def lowerByte_def
      getIcon_def iconMap_def iconTable_def)

lemma detailed_notes:
  "printDetailedEntry (exampleEnv listing probe) 1700000000000000000 fileNotes
   = ''-rw-r--r-- 1 9999 4242   42 Jan _2 15:04 '' @ [CHR 0xEF, CHR 0x85, CHR 0x9C, CHR 0x20]
     @ ''notes.txt'' @ newline"
  by (simp add: printDetailedEntry_def fileNotes_simps infoNotes_simps exampleEnv_simps
      permsOf_examples timeFormatFor_example showNat_small showNat_9999 showNat_4242
      padLeft_42 icon_notes ownerName_def groupName_def)









lemma fileC_info: "Info fileC = Inl (Error ''lstat: no such file or directory'')"
  by (simp add: fileC_def noInfo_def)

lemma errorString_simp: "errorString (Error m) = m"
  by (simp add: errorString_def)


lemma sorted_single: "insertionSort lt [x] = [x]"
  by (simp add: insertionSort_def)

lemma total_single_failed: "printTotalBlocks [fileC] = ''total 0'' @ newline"
  by (simp add: printTotalBlocks_def fileC_info showInt_def showNat_small
      signed_divide_int_def)

text \<open>
  C7. The long format of a directory with the one entry \<^verbatim>\<open>c\<close> whose \<^verbatim>\<open>Info()\<close> fails:
  the message about the entry is part of standard output, and standard error stays empty.
\<close>

theorem stat_failure_written_to_stdout:
  "Run (exampleEnv [fileC] (Inr (80, 24))) True []
   = Inr \<lparr>stdout = ''total 0'' @ newline
                  @ ''ls: error reading file info for c: lstat: no such file or directory''
                  @ newline,
          stderr = []\<rparr>"
  by (simp add: Run_def Let_def exampleEnv_simps sorted_single total_single_failed
      printDetailedEntry_def fileC_info fileC_simps errorString_simp)

theorem total_blocks_header_witness:
  "printTotalBlocks [fileNotes, fileC, dirSrc] = ''total 8'' @ newline
   \<and> Run (exampleEnv [fileNotes, fileC, dirSrc] (Inr (80, 24))) True []
       = Inr \<lparr>stdout = printTotalBlocks [fileC, fileNotes, dirSrc]
                      @ printEntries (exampleEnv [fileNotes, fileC, dirSrc] (Inr (80, 24))) 0
                          [fileC, fileNotes, dirSrc],
              stderr = []\<rparr>"
proof (intro conjI)
  have b: "sum_list (map Blocks [infoNotes, infoSrc]) = 17"
    by (simp add: infoNotes_def infoSrc_def)
  have n: "\<forall>info \<in> set [infoNotes, infoSrc]. 0 \<le> Blocks info"
    by (simp add: infoNotes_def infoSrc_def)
  show "printTotalBlocks [fileNotes, fileC, dirSrc] = ''total 8'' @ newline"
    using total_blocks_header [of "[fileNotes, fileC, dirSrc]", THEN conjunct2, THEN conjunct1]
      statInfos_example b n showNat_8
    by simp
  show "Run (exampleEnv [fileNotes, fileC, dirSrc] (Inr (80, 24))) True []
       = Inr \<lparr>stdout = printTotalBlocks [fileC, fileNotes, dirSrc]
                      @ printEntries (exampleEnv [fileNotes, fileC, dirSrc] (Inr (80, 24))) 0
                          [fileC, fileNotes, dirSrc],
              stderr = []\<rparr>"
    using total_blocks_header [where env = "exampleEnv [fileNotes, fileC, dirSrc] (Inr (80, 24))"
        and args = "[]" and listing = "[fileNotes, fileC, dirSrc]",
        THEN conjunct2, THEN conjunct2]
    by (simp add: exampleEnv_simps sorted_example)
qed

section \<open>Properties of the sort\<close>

lemma mset_insertBy: "mset (insertBy lt x ys) = add_mset x (mset ys)"
  by (induction ys) simp_all

lemma mset_insertionSort: "mset (insertionSort lt xs) = mset xs"
  by (induction xs) (simp_all add: insertionSort_def mset_insertBy)

lemma set_insertBy: "set (insertBy lt x ys) = insert x (set ys)"
  by (induction ys) auto

lemma sorted_insertBy:
  fixes key :: "'a \<Rightarrow> 'k::linorder"
  assumes "sorted_wrt (\<lambda>a b. \<not> key b < key a) ys"
  shows "sorted_wrt (\<lambda>a b. \<not> key b < key a) (insertBy (\<lambda>a b. key a < key b) x ys)"
  using assms
proof (induction ys)
  case Nil
  show ?case by simp
next
  case (Cons y ys)
  show ?case
  proof (cases "key y < key x")
    case True
    then show ?thesis
      using Cons by (auto simp add: set_insertBy)
  next
    case False
    then show ?thesis
      using Cons by auto
  qed
qed

lemma sorted_insertionSort:
  fixes key :: "'a \<Rightarrow> 'k::linorder"
  shows "sorted_wrt (\<lambda>a b. \<not> key b < key a) (insertionSort (\<lambda>a b. key a < key b) xs)"
proof (induction xs)
  case Nil
  show ?case by (simp add: insertionSort_def)
next
  case (Cons x xs)
  then show ?case
    using sorted_insertBy [of key "insertionSort (\<lambda>a b. key a < key b) xs" x]
    by (simp add: insertionSort_def)
qed

lemma insertionSort_post:
  "sortSlicePost (entryLess uni) listing (insertionSort (entryLess uni) listing)"
proof -
  have "entryLess uni = (\<lambda>a b. ToLower uni (Name a) < ToLower uni (Name b))"
    by (simp add: entryLess_def fun_eq_iff)
  then show ?thesis
    using sorted_insertionSort [of "\<lambda>e. ToLower uni (Name e)" listing]
    by (simp add: sortSlicePost_def mset_insertionSort)
qed

lemma sorted_keys:
  fixes key :: "'a \<Rightarrow> 'k::linorder"
  assumes "sorted_wrt (\<lambda>a b. \<not> key b < key a) ys"
  shows "sorted (map key ys)"
proof -
  have "sorted_wrt (\<lambda>a b. key a \<le> key b) ys"
    using assms by (simp add: not_less)
  then show ?thesis by (simp add: sorted_map)
qed

lemma sorted_unique:
  fixes key :: "'a \<Rightarrow> 'k::linorder"
  assumes "mset ys = mset xs" "mset zs = mset xs"
    and "sorted_wrt (\<lambda>a b. \<not> key b < key a) ys"
    and "sorted_wrt (\<lambda>a b. \<not> key b < key a) zs"
    and "distinct (map key xs)"
  shows "ys = zs"
proof -
  have my: "mset (map key ys) = mset (map key xs)" and mz: "mset (map key zs) = mset (map key xs)"
    using assms(1,2) by simp_all
  have dy: "distinct (map key ys)" and dz: "distinct (map key zs)"
    using my mz assms(5) mset_eq_imp_distinct_iff by blast+
  have "set (map key ys) = set (map key zs)"
    using my mz by (metis set_mset_mset)
  then have keys: "map key ys = map key zs"
    using sorted_keys [OF assms(3)] sorted_keys [OF assms(4)] dy dz
    by (intro sorted_distinct_set_unique)
  have "set ys = set xs" "set zs = set xs"
    using assms(1,2) by (metis set_mset_mset)+
  moreover have "inj_on key (set xs)"
    using assms(5) by (simp add: distinct_map)
  ultimately have "inj_on key (set ys \<union> set zs)" by simp
  with keys show ?thesis by (rule map_inj_on)
qed

lemma strictly_sorted_keys:
  fixes key :: "'a \<Rightarrow> 'k::linorder"
  assumes "mset ys = mset xs"
    and "sorted_wrt (\<lambda>a b. \<not> key b < key a) ys"
    and "distinct (map key xs)"
  shows "sorted_wrt (\<lambda>a b. key a < key b) ys"
proof -
  have "mset (map key ys) = mset (map key xs)" using assms(1) by simp
  then have "distinct (map key ys)"
    using assms(3) mset_eq_imp_distinct_iff by blast
  then have "sorted_wrt (<) (map key ys)"
    using sorted_keys [OF assms(2)] by (simp add: strict_sorted_iff)
  then show ?thesis by (simp add: sorted_wrt_map)
qed

lemma distinct_example:
  "distinct (map (\<lambda>e. ToLower id (Name e)) [fileNotes, fileC, dirSrc])"
  by (simp add: fileNotes_def fileC_def dirSrc_def ToLower_def lowerByte_def)

lemma length_insertRev: "length (insertRev lt x ys) = Suc (length ys)"
  by (induction ys) simp_all

lemma mset_insertRev: "mset (insertRev lt x ys) = add_mset x (mset ys)"
  by (induction ys) simp_all

lemma set_insertRev: "set (insertRev lt x ys) = insert x (set ys)"
  by (induction ys) auto

lemma sinkLeft_append:
  "sinkLeft lt (length pre) (pre @ x # post) = rev (insertRev lt x (rev pre)) @ post"
proof (induction pre arbitrary: post rule: rev_induct)
  case Nil
  show ?case by simp
next
  case (snoc y pre)
  have at: "(pre @ [y] @ x # post) ! Suc (length pre) = x" "(pre @ [y] @ x # post) ! length pre = y"
    by (simp_all add: nth_append)
  have sw: "swapAt (Suc (length pre)) (length pre) (pre @ [y] @ x # post) = pre @ x # y # post"
    by (simp add: swapAt_def nth_append list_update_append)
  show ?case
  proof (cases "lt x y")
    case True
    then have "sinkLeft lt (length (pre @ [y])) ((pre @ [y]) @ x # post)
             = sinkLeft lt (length pre) (pre @ x # y # post)"
      using at sw by simp
    also have "\<dots> = rev (insertRev lt x (rev pre)) @ y # post"
      by (rule snoc.IH)
    finally show ?thesis using True by simp
  next
    case False
    then show ?thesis using at by simp
  qed
qed

lemma fold_sinkLeft:
  assumes "k \<le> length xs"
  shows "fold (sinkLeft lt) [1..<k] xs
         = rev (foldl (\<lambda>acc x. insertRev lt x acc) [] (take k xs)) @ drop k xs"
  using assms
proof (induction k)
  case 0
  show ?case by simp
next
  case (Suc k)
  let ?S = "\<lambda>ys. foldl (\<lambda>acc x. insertRev lt x acc) [] ys"
  have len: "length (?S ys) = length ys" for ys
    by (induction ys rule: rev_induct) (simp_all add: length_insertRev)
  show ?case
  proof (cases "k = 0")
    case True
    then show ?thesis using Suc.prems by (cases xs) simp_all
  next
    case False
    then have up: "[1..<Suc k] = [1..<k] @ [k]" by simp
    have k: "k < length xs" using Suc.prems by simp
    have "fold (sinkLeft lt) [1..<Suc k] xs = sinkLeft lt k (fold (sinkLeft lt) [1..<k] xs)"
      by (simp only: up fold_append) simp
    also have "\<dots> = sinkLeft lt k (rev (?S (take k xs)) @ drop k xs)"
      using Suc.IH k by simp
    also have "\<dots> = sinkLeft lt (length (rev (?S (take k xs))))
                         (rev (?S (take k xs)) @ xs ! k # drop (Suc k) xs)"
      using k by (simp add: len Cons_nth_drop_Suc min_def)
    also have "\<dots> = rev (insertRev lt (xs ! k) (rev (rev (?S (take k xs))))) @ drop (Suc k) xs"
      by (rule sinkLeft_append)
    also have "\<dots> = rev (?S (take (Suc k) xs)) @ drop (Suc k) xs"
      using k by (simp add: take_Suc_conv_app_nth)
    finally show ?thesis .
  qed
qed

lemma insertionSortFunc_eq:
  "insertionSortFunc lt xs = rev (foldl (\<lambda>acc x. insertRev lt x acc) [] xs)"
  using fold_sinkLeft [of "length xs" xs lt] by (simp add: insertionSortFunc_def)

lemma mset_insertionSortFunc: "mset (insertionSortFunc lt xs) = mset xs"
proof -
  have "mset (foldl (\<lambda>acc x. insertRev lt x acc) [] xs) = mset xs"
    by (induction xs rule: rev_induct) (simp_all add: mset_insertRev)
  then show ?thesis by (simp add: insertionSortFunc_eq)
qed

lemma descending_insertRev:
  fixes key :: "'a \<Rightarrow> 'k::linorder"
  assumes "sorted_wrt (\<lambda>a b. \<not> key a < key b) ys"
  shows "sorted_wrt (\<lambda>a b. \<not> key a < key b) (insertRev (\<lambda>a b. key a < key b) x ys)"
  using assms
proof (induction ys)
  case Nil
  show ?case by simp
next
  case (Cons y ys)
  show ?case
  proof (cases "key x < key y")
    case True
    then show ?thesis using Cons by (auto simp add: set_insertRev)
  next
    case False
    then show ?thesis using Cons by auto
  qed
qed

lemma sorted_insertionSortFunc:
  fixes key :: "'a \<Rightarrow> 'k::linorder"
  shows "sorted_wrt (\<lambda>a b. \<not> key b < key a) (insertionSortFunc (\<lambda>a b. key a < key b) xs)"
proof -
  have "sorted_wrt (\<lambda>a b. \<not> key a < key b)
          (foldl (\<lambda>acc x. insertRev (\<lambda>a b. key a < key b) x acc) [] xs)"
    by (induction xs rule: rev_induct) (simp_all add: descending_insertRev)
  then show ?thesis by (simp add: insertionSortFunc_eq sorted_wrt_rev)
qed

lemma mset_swapAt: "i < length xs \<Longrightarrow> j < length xs \<Longrightarrow> mset (swapAt i j xs) = mset xs"
  unfolding swapAt_def by (simp add: mset_swap)

lemma length_swapAt: "length (swapAt i j xs) = length xs"
  by (simp add: swapAt_def)

lemma shell_fold:
  assumes "\<forall>i \<in> set is. i < length ys"
  shows "length (fold (\<lambda>i ys. if lt (ys ! i) (ys ! (i - 6)) then swapAt i (i - 6) ys else ys) is ys)
           = length ys
         \<and> mset (fold (\<lambda>i ys. if lt (ys ! i) (ys ! (i - 6)) then swapAt i (i - 6) ys else ys) is ys)
           = mset ys"
  using assms
proof (induction "is" arbitrary: ys)
  case Nil
  show ?case by simp
next
  case (Cons i "is")
  let ?ys' = "if lt (ys ! i) (ys ! (i - 6)) then swapAt i (i - 6) ys else ys"
  have i: "i < length ys" "i - 6 < length ys" using Cons.prems by auto
  have l: "length ?ys' = length ys" by (simp add: length_swapAt)
  have m: "mset ?ys' = mset ys" using i by (simp add: mset_swapAt)
  have "\<forall>i \<in> set is. i < length ?ys'" using Cons.prems l by simp
  from Cons.IH [OF this] show ?case using l m by simp
qed

lemma mset_shellPass6: "mset (shellPass6 lt xs) = mset xs"
  using shell_fold [of "[6..<length xs]" xs lt] by (simp add: shellPass6_def)

lemma goSort_post:
  assumes "length listing \<le> 12 \<or> sortSlicePost (entryLess uni) listing (big (entryLess uni) listing)"
  shows "sortSlicePost (entryLess uni) listing (sortSlice118 big (entryLess uni) listing)"
    and "sortSlicePost (entryLess uni) listing (sortSlice119 big (entryLess uni) listing)"
proof -
  have lt: "entryLess uni = (\<lambda>a b. ToLower uni (Name a) < ToLower uni (Name b))"
    by (simp add: entryLess_def fun_eq_iff)
  have s: "sorted_wrt (\<lambda>a b. \<not> entryLess uni b a) (insertionSortFunc (entryLess uni) xs)" for xs
    using sorted_insertionSortFunc [of "\<lambda>e. ToLower uni (Name e)" xs]
    by (simp add: lt)
  show "sortSlicePost (entryLess uni) listing (sortSlice119 big (entryLess uni) listing)"
    using s assms by (auto simp add: sortSlicePost_def sortSlice119_def mset_insertionSortFunc)
  show "sortSlicePost (entryLess uni) listing (sortSlice118 big (entryLess uni) listing)"
  proof (cases "1 < length listing")
    case True
    then show ?thesis
      using s assms by (auto simp add: sortSlicePost_def sortSlice118_def mset_insertionSortFunc
          mset_shellPass6)
  next
    case False
    then have "listing = [] \<or> (\<exists>x. listing = [x])"
      by (cases listing) auto
    then show ?thesis
      using False by (auto simp add: sortSlicePost_def sortSlice118_def)
  qed
qed

lemma sort_key_unique:
  fixes key :: "'a \<Rightarrow> 'k::linorder"
  assumes "mset ys = mset xs"
    and "sorted_wrt (\<lambda>a b. \<not> key b < key a) ys"
    and "distinct (map key xs)"
  shows "ys = sort_key key xs"
proof -
  have "mset (sort_key key xs) = mset xs" by simp
  moreover have "sorted_wrt (\<lambda>a b. \<not> key b < key a) (sort_key key xs)"
    using sorted_sort_key [of key xs] by (simp add: sorted_map not_less)
  ultimately show ?thesis
    using assms sorted_unique [of ys xs "sort_key key xs" key] by blast
qed

lemma specEntryLess_trans:
  "specEntryLess uni a b \<Longrightarrow> specEntryLess uni b c \<Longrightarrow> specEntryLess uni a c"
  by (auto simp add: specEntryLess_def)

lemma stable_insertRev:
  assumes "sorted_wrt (\<lambda>a b. specEntryLess uni b a) acc"
    and "\<forall>y \<in> set acc. Name y < Name x"
  shows "sorted_wrt (\<lambda>a b. specEntryLess uni b a) (insertRev (entryLess uni) x acc)"
  using assms
proof (induction acc)
  case Nil
  show ?case by simp
next
  case (Cons y ys)
  show ?case
  proof (cases "entryLess uni x y")
    case True
    then have "specEntryLess uni x y" by (simp add: entryLess_def specEntryLess_def)
    then show ?thesis using True Cons by (auto simp add: set_insertRev)
  next
    case False
    have "Name y < Name x" using Cons.prems by simp
    then have yx: "specEntryLess uni y x"
      using False by (auto simp add: entryLess_def specEntryLess_def)
    have "specEntryLess uni z x" if "z \<in> set ys" for z
    proof -
      have "specEntryLess uni z y" using Cons.prems(1) that by simp
      then show ?thesis using yx by (rule specEntryLess_trans)
    qed
    then show ?thesis using False yx Cons.prems(1) by auto
  qed
qed

lemma stable_insertionSortFunc:
  assumes "sorted_wrt (\<lambda>a b. Name a < Name b) listing"
  shows "sorted_wrt (specEntryLess uni) (insertionSortFunc (entryLess uni) listing)"
proof -
  have "sorted_wrt (\<lambda>a b. specEntryLess uni b a)
          (foldl (\<lambda>acc x. insertRev (entryLess uni) x acc) [] listing)
        \<and> set (foldl (\<lambda>acc x. insertRev (entryLess uni) x acc) [] listing) = set listing"
    using assms
  proof (induction listing rule: rev_induct)
    case Nil
    show ?case by simp
  next
    case (snoc x xs)
    have pre: "sorted_wrt (\<lambda>a b. Name a < Name b) xs" and lt: "\<forall>y \<in> set xs. Name y < Name x"
      using snoc.prems by (simp_all add: sorted_wrt_append)
    from snoc.IH [OF pre] show ?case
      using lt by (simp add: stable_insertRev set_insertRev)
  qed
  then show ?thesis by (simp add: insertionSortFunc_eq sorted_wrt_rev)
qed


text \<open>
  C1, as the code has it. \<^verbatim>\<open>Run\<close> renders the entries in the order that \<^verbatim>\<open>sort.Slice\<close>
  leaves, with the sort of Go 1.16 to 1.18 or that of Go 1.19 and later; for a listing of
  at most 12 entries nothing is assumed of the library, for a longer one its partitioning
  code is taken to return the entries ordered by the closure. The order is a permutation of
  the listing in which the lowercased names never decrease. When no two names are equal
  case-insensitively the names increase strictly, the order is the one of the
  specification, and it is the same whatever the sort. Names that differ only in case are
  not separated by the closure: with the insertion sort of Go 1.19 and later they keep the
  byte order in which \<^verbatim>\<open>os.ReadDir\<close> returned a listing of at most 12 entries; nothing
  orders them otherwise.
\<close>

theorem run_order_case_insensitive:
  assumes "ReadDir env (case args of [] \<Rightarrow> ''.'' | a # rest \<Rightarrow> a) = Inr listing"
    and "sortSlice env = sortSlice118 big \<or> sortSlice env = sortSlice119 big"
    and "length listing \<le> 12
         \<or> sortSlicePost (entryLess (unicodeLower env)) listing
              (big (entryLess (unicodeLower env)) listing)"
    and "ordered = sortSlice env (entryLess (unicodeLower env)) listing"
  shows "Run env True args =
           Inr \<lparr>stdout = printTotalBlocks ordered @ printEntries env 0 ordered, stderr = []\<rparr>
       \<and> Run env False args =
           (case printMultiColumn env ordered of
              Inl panic \<Rightarrow> Inl panic
            | Inr columns \<Rightarrow> Inr \<lparr>stdout = columns, stderr = []\<rparr>)
       \<and> mset ordered = mset listing
       \<and> sorted_wrt (\<lambda>a b. ToLower (unicodeLower env) (Name a)
                            \<le> ToLower (unicodeLower env) (Name b)) ordered
       \<and> (distinct (map (\<lambda>e. ToLower (unicodeLower env) (Name e)) listing)
          \<longrightarrow> sorted_wrt (specEntryLess (unicodeLower env)) ordered
              \<and> ordered = sort_key (\<lambda>e. ToLower (unicodeLower env) (Name e)) listing)
       \<and> (sortSlice env = sortSlice119 big \<and> length listing \<le> 12
            \<and> sorted_wrt (\<lambda>a b. Name a < Name b) listing
          \<longrightarrow> sorted_wrt (specEntryLess (unicodeLower env)) ordered)"
proof (intro conjI impI)
  let ?uni = "unicodeLower env"
  let ?key = "\<lambda>e. ToLower ?uni (Name e)"
  have post: "sortSlicePost (entryLess ?uni) listing ordered"
    using assms(2,4) goSort_post [where listing = listing and uni = "unicodeLower env" and big = big, OF assms(3)]
    by auto
  then have m: "mset ordered = mset listing"
    and s: "sorted_wrt (\<lambda>a b. \<not> ?key b < ?key a) ordered"
    by (simp_all add: sortSlicePost_def entryLess_def)
  show "Run env True args =
           Inr \<lparr>stdout = printTotalBlocks ordered @ printEntries env 0 ordered, stderr = []\<rparr>"
    using assms(1,4) by (simp add: Run_def Let_def)
  show "Run env False args =
           (case printMultiColumn env ordered of
              Inl panic \<Rightarrow> Inl panic
            | Inr columns \<Rightarrow> Inr \<lparr>stdout = columns, stderr = []\<rparr>)"
    using assms(1,4) by (simp add: Run_def Let_def)
  show "mset ordered = mset listing" by (rule m)
  show "sorted_wrt (\<lambda>a b. ?key a \<le> ?key b) ordered"
    using s by (simp add: not_less)
  {
    assume d: "distinct (map ?key listing)"
    have "sorted_wrt (\<lambda>a b. ?key a < ?key b) ordered"
      using m s d by (rule strictly_sorted_keys)
    then show "sorted_wrt (specEntryLess ?uni) ordered"
      by (rule sorted_wrt_mono_rel [rotated]) (simp add: specEntryLess_def)
    show "ordered = sort_key ?key listing"
      using m s d by (rule sort_key_unique)
  }
  {
    assume a: "sortSlice env = sortSlice119 big \<and> length listing \<le> 12
            \<and> sorted_wrt (\<lambda>a b. Name a < Name b) listing"
    then have "ordered = insertionSortFunc (entryLess ?uni) listing"
      using assms(4) by (simp add: sortSlice119_def)
    then show "sorted_wrt (specEntryLess ?uni) ordered"
      using a stable_insertionSortFunc [of listing ?uni] by simp
  }
qed

lemma three_sorted118:
  "sortSlice118 insertionSort (entryLess id) [fileNotes, fileC, dirSrc] = [fileC, fileNotes, dirSrc]"
  by code_simp

lemma seven_sorted118:
  "sortSlice118 insertionSort (entryLess id) sevenFiles = sevenSorted118"
  by code_simp

lemma seven_sorted119:
  "sortSlice119 insertionSort (entryLess id) sevenFiles
   = [fileLowerB_us, fileBa, fileLowerB_A, fileBb, fileBc, fileBd, fileBe]"
  by code_simp

lemma seven_readdir_order: "sorted_wrt (\<lambda>a b. Name a < Name b) sevenFiles"
  by code_simp

lemma exampleEnv118_simps:
  "ReadDir (exampleEnv118 listing probe) ''.'' = Inr listing"
  "sortSlice (exampleEnv118 listing probe) = sortSlice118 insertionSort"
  "unicodeLower (exampleEnv118 listing probe) = id"
  "GetSize (exampleEnv118 listing probe) = probe"
  "RuneCountInString (exampleEnv118 listing probe) = countRunes"
  by (simp_all add: exampleEnv118_def exampleEnv_def)

lemma exampleEnv119_simps:
  "ReadDir (exampleEnv119 listing probe) ''.'' = Inr listing"
  "sortSlice (exampleEnv119 listing probe) = sortSlice119 insertionSort"
  "unicodeLower (exampleEnv119 listing probe) = id"
  by (simp_all add: exampleEnv119_def exampleEnv_def)



theorem run_order_case_insensitive_witness:
  "Run (exampleEnv118 [fileNotes, fileC, dirSrc] (Inr (80, 24))) True []
     = Inr \<lparr>stdout = printTotalBlocks [fileC, fileNotes, dirSrc]
                    @ printEntries (exampleEnv118 [fileNotes, fileC, dirSrc] (Inr (80, 24))) 0
                        [fileC, fileNotes, dirSrc],
            stderr = []\<rparr>
   \<and> sorted_wrt (specEntryLess id) [fileC, fileNotes, dirSrc]
   \<and> sorted_wrt (specEntryLess id)
        [fileLowerB_us, fileBa, fileLowerB_A, fileBb, fileBc, fileBd, fileBe]"
proof (intro conjI)
  let ?E = "exampleEnv118 [fileNotes, fileC, dirSrc] (Inr (80, 24))"
  have u: "unicodeLower ?E = id" by (rule exampleEnv118_simps(3))
  have srt: "sortSlice ?E = sortSlice118 insertionSort" by (rule exampleEnv118_simps(2))
  have o: "[fileC, fileNotes, dirSrc]
           = sortSlice ?E (entryLess (unicodeLower ?E)) [fileNotes, fileC, dirSrc]"
    unfolding u srt by (rule three_sorted118 [symmetric])
  have r: "ReadDir ?E (case [] of [] \<Rightarrow> ''.'' | a # rest \<Rightarrow> a) = Inr [fileNotes, fileC, dirSrc]"
    by (simp add: exampleEnv118_simps(1))
  have v: "sortSlice ?E = sortSlice118 insertionSort \<or> sortSlice ?E = sortSlice119 insertionSort"
    by (rule disjI1) (rule srt)
  have l: "length [fileNotes, fileC, dirSrc] \<le> 12
           \<or> sortSlicePost (entryLess (unicodeLower ?E)) [fileNotes, fileC, dirSrc]
                (insertionSort (entryLess (unicodeLower ?E)) [fileNotes, fileC, dirSrc])"
    by (rule disjI1) simp
  note t = run_order_case_insensitive [OF r v l o]
  show "Run ?E True []
     = Inr \<lparr>stdout = printTotalBlocks [fileC, fileNotes, dirSrc]
                    @ printEntries ?E 0 [fileC, fileNotes, dirSrc],
            stderr = []\<rparr>"
    using t by (rule conjunct1)
  have d: "distinct (map (\<lambda>e. ToLower (unicodeLower ?E) (Name e)) [fileNotes, fileC, dirSrc])"
    unfolding u by (rule distinct_example)
  have "sorted_wrt (specEntryLess (unicodeLower ?E)) [fileC, fileNotes, dirSrc]"
    using t [THEN conjunct2, THEN conjunct2, THEN conjunct2, THEN conjunct2, THEN conjunct1] d
    by (elim impE conjE)
  then show "sorted_wrt (specEntryLess id) [fileC, fileNotes, dirSrc]"
    unfolding u .
  let ?F = "exampleEnv119 sevenFiles (Inr (80, 24))"
  have u7: "unicodeLower ?F = id" by (rule exampleEnv119_simps(3))
  have srt7: "sortSlice ?F = sortSlice119 insertionSort" by (rule exampleEnv119_simps(2))
  have o7: "[fileLowerB_us, fileBa, fileLowerB_A, fileBb, fileBc, fileBd, fileBe]
           = sortSlice ?F (entryLess (unicodeLower ?F)) sevenFiles"
    unfolding u7 srt7 by (rule seven_sorted119 [symmetric])
  have r7: "ReadDir ?F (case [] of [] \<Rightarrow> ''.'' | a # rest \<Rightarrow> a) = Inr sevenFiles"
    by (simp add: exampleEnv119_simps(1))
  have v7: "sortSlice ?F = sortSlice118 insertionSort \<or> sortSlice ?F = sortSlice119 insertionSort"
    by (rule disjI2) (rule srt7)
  have n7: "length sevenFiles \<le> 12" by (simp add: sevenFiles_def)
  then have l7: "length sevenFiles \<le> 12
           \<or> sortSlicePost (entryLess (unicodeLower ?F)) sevenFiles
                (insertionSort (entryLess (unicodeLower ?F)) sevenFiles)"
    by (rule disjI1)
  note t7 = run_order_case_insensitive [OF r7 v7 l7 o7]
  have "sorted_wrt (specEntryLess (unicodeLower ?F))
        [fileLowerB_us, fileBa, fileLowerB_A, fileBb, fileBc, fileBd, fileBe]"
    using t7 [THEN conjunct2, THEN conjunct2, THEN conjunct2, THEN conjunct2, THEN conjunct2]
      srt7 n7 seven_readdir_order
    by blast
  then show "sorted_wrt (specEntryLess id)
        [fileLowerB_us, fileBa, fileLowerB_A, fileBb, fileBc, fileBd, fileBe]"
    unfolding u7 .
qed

text \<open>
  C1, as stated, fails. A directory holds the seven files \<^verbatim>\<open>Ba Bb Bc Bd Be bA b_\<close>, which
  \<^verbatim>\<open>os.ReadDir\<close> returns in this order. With the sort of Go 1.16 to 1.18 the pass with gap 6
  swaps \<^verbatim>\<open>b_\<close> and \<^verbatim>\<open>Ba\<close>, the insertion sort then moves \<^verbatim>\<open>bA\<close> and \<^verbatim>\<open>Ba\<close> to the left,
  and \<^verbatim>\<open>Ba\<close> stops behind \<^verbatim>\<open>bA\<close>, because the closure does not put it before. The compact
  listing shows \<^verbatim>\<open>bA\<close> before \<^verbatim>\<open>Ba\<close>, against the byte order that the specification asks for
  between names that differ only in case.
\<close>

theorem ties_reversed_counterexample:
  "sorted (map Name sevenFiles)
   \<and> sortSlice (exampleEnv118 sevenFiles (Inr (80, 24))) (entryLess id) sevenFiles
       = [fileLowerB_us, fileLowerB_A, fileBa, fileBb, fileBc, fileBd, fileBe]
   \<and> Run (exampleEnv118 sevenFiles (Inr (80, 24))) False []
       = Inr \<lparr>stdout = iconFile @ ''b_    '' @ iconFile @ ''bA    '' @ iconFile @ ''Ba    ''
                      @ iconFile @ ''Bb    '' @ iconFile @ ''Bc    '' @ iconFile @ ''Bd    ''
                      @ iconFile @ ''Be    '' @ newline,
              stderr = []\<rparr>
   \<and> specEntryLess id fileBa fileLowerB_A
   \<and> \<not> specSorted id [fileLowerB_us, fileLowerB_A, fileBa, fileBb, fileBc, fileBd, fileBe]"
  by code_simp

section \<open>The age test in float64\<close>

text \<open>
  Rounding to float64 is monotone and exact on the integers of the age test; the hours of a
  \<^verbatim>\<open>Duration\<close> exceed \<open>4320\<close> exactly when the duration exceeds \<open>4320\<close> hours by two nanoseconds
  or more.
\<close>

lemma roundHalfEven_floor: "\<lfloor>x\<rfloor> \<le> roundHalfEven x" "roundHalfEven x \<le> \<lfloor>x\<rfloor> + 1"
  by (simp_all add: roundHalfEven_def Let_def)

lemma roundHalfEven_of_int: "roundHalfEven (of_int n) = n"
  by (simp add: roundHalfEven_def Let_def)

lemma roundHalfEven_mono:
  assumes "x \<le> y"
  shows "roundHalfEven x \<le> roundHalfEven y"
proof (cases "\<lfloor>x\<rfloor> = \<lfloor>y\<rfloor>")
  case True
  have "x - of_int \<lfloor>x\<rfloor> \<le> y - of_int \<lfloor>y\<rfloor>"
    using assms True by simp
  then show ?thesis
    using True by (auto simp add: roundHalfEven_def Let_def)
next
  case False
  have "\<lfloor>x\<rfloor> \<le> \<lfloor>y\<rfloor>" using assms by (rule floor_mono)
  with False have "\<lfloor>x\<rfloor> + 1 \<le> \<lfloor>y\<rfloor>" by simp
  then show ?thesis
    using roundHalfEven_floor(2) [of x] roundHalfEven_floor(1) [of y] by linarith
qed

lemma roundHalfEven_ge: "of_int n \<le> x \<Longrightarrow> n \<le> roundHalfEven x"
  using roundHalfEven_mono [of "of_int n" x] by (simp add: roundHalfEven_of_int)

lemma roundHalfEven_le: "x \<le> of_int n \<Longrightarrow> roundHalfEven x \<le> n"
  using roundHalfEven_mono [of x "of_int n"] by (simp add: roundHalfEven_of_int)

lemma ilog2_ge_one:
  assumes "1 \<le> a"
  shows "2 powi (ilog2 a) \<le> a \<and> a < 2 powi (ilog2 a + 1)"
proof -
  define n where "n = nat \<lfloor>a\<rfloor>"
  define L where "L = floorlog 2 n"
  have f1: "1 \<le> \<lfloor>a\<rfloor>" using assms by simp
  then have int_n: "int n = \<lfloor>a\<rfloor>" by (simp add: n_def)
  have npos: "0 < n" using f1 by (simp add: n_def)
  have rn: "rat_of_nat n = of_int \<lfloor>a\<rfloor>"
    using int_n by (metis of_int_of_nat_eq)
  have lo: "rat_of_nat n \<le> a" unfolding rn by (rule of_int_floor_le)
  have hi: "a < rat_of_nat n + 1" unfolding rn by linarith
  have b: "2 ^ (L - 1) \<le> n" "n < 2 ^ L"
    using floorlog_bounds [of n 2] npos by (simp_all add: L_def)
  have Lpos: "0 < L" using npos by (simp add: L_def floorlog_def)
  have il: "ilog2 a = int (L - 1)"
    using assms Lpos by (simp add: ilog2_def L_def n_def)
  have il1: "ilog2 a + 1 = int L"
    using il Lpos by simp
  have "(2::rat) ^ (L - 1) = rat_of_nat (2 ^ (L - 1))" by simp
  also have "\<dots> \<le> rat_of_nat n" using b(1) by (simp only: of_nat_le_iff)
  also have "\<dots> \<le> a" by (rule lo)
  finally have c1: "(2::rat) ^ (L - 1) \<le> a" .
  have "n + 1 \<le> 2 ^ L" using b(2) by simp
  then have "rat_of_nat (n + 1) \<le> rat_of_nat (2 ^ L)"
    by (simp only: of_nat_le_iff)
  moreover have "rat_of_nat (n + 1) = rat_of_nat n + 1" "rat_of_nat (2 ^ L) = 2 ^ L"
    by simp_all
  ultimately have "rat_of_nat n + 1 \<le> 2 ^ L" by (simp only:)
  then have c2: "a < (2::rat) ^ L" using hi by linarith
  show ?thesis
    unfolding il1 unfolding il using c1 c2 by simp
qed

lemma ilog2_less_one:
  assumes "0 < a" "a < 1"
  shows "2 powi (ilog2 a) \<le> a \<and> a < 2 powi (ilog2 a + 1)"
proof -
  define m where "m = \<lceil>1 / a\<rceil>"
  define k where "k = nat (m - 1)"
  define J where "J = floorlog 2 k"
  have inv: "1 < 1 / a" using assms by simp
  have m2: "2 \<le> m"
    using inv unfolding m_def by linarith
  have int_k: "int k = m - 1" using m2 by (simp add: k_def)
  have kpos: "0 < k" using m2 by (simp add: k_def)
  have rk: "rat_of_nat k = of_int m - 1"
    using int_k by (metis of_int_1 of_int_diff of_int_of_nat_eq)
  have up: "1 / a \<le> rat_of_nat k + 1"
    unfolding rk m_def by simp
  have low: "rat_of_nat k < 1 / a"
    unfolding rk m_def by linarith
  have b: "2 ^ (J - 1) \<le> k" "k < 2 ^ J"
    using floorlog_bounds [of k 2] kpos by (simp_all add: J_def)
  have Jpos: "0 < J" using kpos by (simp add: J_def floorlog_def)
  have il: "ilog2 a = - int J"
    using assms by (simp add: ilog2_def J_def k_def m_def)
  have il1: "ilog2 a + 1 = - int (J - 1)"
    using il Jpos by simp
  have "k + 1 \<le> 2 ^ J" using b(2) by simp
  then have "rat_of_nat (k + 1) \<le> rat_of_nat (2 ^ J)"
    by (simp only: of_nat_le_iff)
  moreover have "rat_of_nat (k + 1) = rat_of_nat k + 1" "rat_of_nat (2 ^ J) = 2 ^ J"
    by simp_all
  ultimately have "rat_of_nat k + 1 \<le> 2 ^ J" by (simp only:)
  then have "1 / a \<le> (2::rat) ^ J" using up by linarith
  then have "1 \<le> (2::rat) ^ J * a"
    using assms(1) by (simp add: field_simps)
  then have c1: "1 / (2::rat) ^ J \<le> a"
    by (simp add: field_simps)
  have "(2::rat) ^ (J - 1) = rat_of_nat (2 ^ (J - 1))" by simp
  also have "\<dots> \<le> rat_of_nat k" using b(1) by (simp only: of_nat_le_iff)
  also have "\<dots> < 1 / a" by (rule low)
  finally have "(2::rat) ^ (J - 1) < 1 / a" .
  then have "(2::rat) ^ (J - 1) * a < 1"
    using assms(1) by (simp add: field_simps)
  then have c2: "a < 1 / (2::rat) ^ (J - 1)"
    by (simp add: field_simps)
  show ?thesis
    unfolding il1 unfolding il using c1 c2
    by (simp add: power_int_minus_divide)
qed

lemma ilog2_bounds:
  assumes "0 < a"
  shows "2 powi (ilog2 a) \<le> a" "a < 2 powi (ilog2 a + 1)"
  using assms ilog2_ge_one [of a] ilog2_less_one [of a] by (cases "1 \<le> a"; simp)+


lemma ilog2_mono:
  assumes "0 < x" "x \<le> y"
  shows "ilog2 x \<le> ilog2 y"
proof (rule ccontr)
  assume "\<not> ilog2 x \<le> ilog2 y"
  then have "ilog2 y + 1 \<le> ilog2 x" by simp
  then have "(2::rat) powi (ilog2 y + 1) \<le> 2 powi (ilog2 x)"
    by (intro power_int_increasing) simp_all
  also have "\<dots> \<le> x" using assms(1) by (rule ilog2_bounds)
  also have "\<dots> \<le> y" by (rule assms(2))
  also have "\<dots> < 2 powi (ilog2 y + 1)"
    using assms by (intro ilog2_bounds) simp
  finally show False by simp
qed

lemma ulp_split:
  "(2::rat) powi e = 2 ^ 52 * 2 powi (e - 52)"
  "(2::rat) powi (e + 1) = 2 ^ 53 * 2 powi (e - 52)"
proof -
  have "e = 52 + (e - 52)" by simp
  then have "(2::rat) powi e = 2 powi (52 + (e - 52))" by (simp only:)
  also have "\<dots> = 2 powi 52 * 2 powi (e - 52)"
    by (rule power_int_add) simp
  finally show "(2::rat) powi e = 2 ^ 52 * 2 powi (e - 52)" by simp
  have "e + 1 = 53 + (e - 52)" by simp
  then have "(2::rat) powi (e + 1) = 2 powi (53 + (e - 52))" by (simp only:)
  also have "\<dots> = 2 powi 53 * 2 powi (e - 52)"
    by (rule power_int_add) simp
  finally show "(2::rat) powi (e + 1) = 2 ^ 53 * 2 powi (e - 52)" by simp
qed

lemma round64_pos:
  "0 < x \<Longrightarrow>
   round64 x = of_int (roundHalfEven (x / 2 powi (ilog2 x - 52))) * 2 powi (ilog2 x - 52)"
  by (simp add: round64_def Let_def)

lemma significand_bounds:
  assumes "0 < x"
  shows "2 ^ 52 \<le> x / 2 powi (ilog2 x - 52)" "x / 2 powi (ilog2 x - 52) < 2 ^ 53"
proof -
  let ?u = "(2::rat) powi (ilog2 x - 52)"
  have u: "0 < ?u" by simp
  have "2 ^ 52 * ?u \<le> x"
    using ilog2_bounds(1) [OF assms] by (simp only: ulp_split(1) [symmetric])
  then show "2 ^ 52 \<le> x / ?u"
    using u by (simp only: pos_le_divide_eq)
  have "x < 2 ^ 53 * ?u"
    using ilog2_bounds(2) [OF assms] by (simp only: ulp_split(2) [symmetric])
  then show "x / ?u < 2 ^ 53"
    using u by (simp only: pos_divide_less_eq)
qed

lemma round64_pos_bounds:
  assumes "0 < x"
  shows "2 powi (ilog2 x) \<le> round64 x" "round64 x \<le> 2 powi (ilog2 x + 1)"
proof -
  let ?u = "(2::rat) powi (ilog2 x - 52)"
  let ?s = "x / ?u"
  have u: "0 \<le> ?u" by simp
  have "rat_of_int (2 ^ 52) \<le> ?s"
    using significand_bounds(1) [OF assms] by simp
  then have "2 ^ 52 \<le> roundHalfEven ?s" by (rule roundHalfEven_ge)
  then have "rat_of_int (2 ^ 52) \<le> rat_of_int (roundHalfEven ?s)"
    by (simp only: of_int_le_iff)
  then have "rat_of_int (2 ^ 52) * ?u \<le> rat_of_int (roundHalfEven ?s) * ?u"
    using u by (rule mult_right_mono)
  then show "2 powi (ilog2 x) \<le> round64 x"
    by (simp add: round64_pos [OF assms] ulp_split(1) [of "ilog2 x"])
  have "?s \<le> rat_of_int (2 ^ 53)"
    using significand_bounds(2) [OF assms] by simp
  then have "roundHalfEven ?s \<le> 2 ^ 53" by (rule roundHalfEven_le)
  then have "rat_of_int (roundHalfEven ?s) \<le> rat_of_int (2 ^ 53)"
    by (simp only: of_int_le_iff)
  then have "rat_of_int (roundHalfEven ?s) * ?u \<le> rat_of_int (2 ^ 53) * ?u"
    using u by (rule mult_right_mono)
  then show "round64 x \<le> 2 powi (ilog2 x + 1)"
    by (simp add: round64_pos [OF assms] ulp_split(2) [of "ilog2 x"])
qed

lemma round64_mono_pos:
  assumes "0 < x" "x \<le> y"
  shows "round64 x \<le> round64 y"
proof (cases "ilog2 x = ilog2 y")
  case True
  let ?u = "(2::rat) powi (ilog2 y - 52)"
  have y: "0 < y" using assms by simp
  have "x / ?u \<le> y / ?u"
    using assms(2) by (simp add: divide_right_mono)
  then have "roundHalfEven (x / ?u) \<le> roundHalfEven (y / ?u)"
    by (rule roundHalfEven_mono)
  then have "rat_of_int (roundHalfEven (x / ?u)) \<le> rat_of_int (roundHalfEven (y / ?u))"
    by (simp only: of_int_le_iff)
  then have "rat_of_int (roundHalfEven (x / ?u)) * ?u \<le> rat_of_int (roundHalfEven (y / ?u)) * ?u"
    by (rule mult_right_mono) simp
  then show ?thesis
    by (simp add: round64_pos [OF assms(1)] round64_pos [OF y] True)
next
  case False
  have y: "0 < y" using assms by simp
  have "ilog2 x \<le> ilog2 y" using assms by (rule ilog2_mono)
  with False have "ilog2 x + 1 \<le> ilog2 y" by simp
  then have "(2::rat) powi (ilog2 x + 1) \<le> 2 powi (ilog2 y)"
    by (intro power_int_increasing) simp_all
  then show ?thesis
    using round64_pos_bounds(2) [OF assms(1)] round64_pos_bounds(1) [OF y] by linarith
qed

lemma round64_0: "round64 0 = 0"
  by (simp add: round64_def)

lemma round64_nonneg: "0 \<le> x \<Longrightarrow> 0 \<le> round64 x"
proof (cases "x = 0")
  case True
  then show ?thesis by (simp add: round64_0)
next
  case False
  assume "0 \<le> x"
  with False have x: "0 < x" by simp
  have "(0::rat) \<le> 2 powi (ilog2 x)" by simp
  then show ?thesis using round64_pos_bounds(1) [OF x] by linarith
qed

lemma round64_minus: "round64 (- x) = - round64 x"
  by (simp add: round64_def Let_def)

lemma round64_nonpos: "x \<le> 0 \<Longrightarrow> round64 x \<le> 0"
  using round64_nonneg [of "- x"] by (simp add: round64_minus)

lemma round64_mono:
  assumes "x \<le> y"
  shows "round64 x \<le> round64 y"
proof -
  consider "0 < x" | "x \<le> 0" "0 \<le> y" | "y < 0" by linarith
  then show ?thesis
  proof cases
    case 1
    then show ?thesis using assms by (rule round64_mono_pos)
  next
    case 2
    then show ?thesis
      using round64_nonpos [of x] round64_nonneg [of y] by linarith
  next
    case 3
    then have "0 < - y" "- y \<le> - x" using assms by simp_all
    then have "round64 (- y) \<le> round64 (- x)" by (rule round64_mono_pos)
    then show ?thesis by (simp add: round64_minus)
  qed
qed

lemma ilog2_unique:
  assumes "0 < x" "2 powi e \<le> x" "x < 2 powi (e + 1)"
  shows "ilog2 x = e"
proof (rule antisym)
  show "ilog2 x \<le> e"
  proof (rule ccontr)
    assume "\<not> ilog2 x \<le> e"
    then have "e + 1 \<le> ilog2 x" by simp
    then have "(2::rat) powi (e + 1) \<le> 2 powi (ilog2 x)"
      by (intro power_int_increasing) simp_all
    also have "\<dots> \<le> x" using assms(1) by (rule ilog2_bounds)
    finally show False using assms(3) by simp
  qed
  show "e \<le> ilog2 x"
  proof (rule ccontr)
    assume "\<not> e \<le> ilog2 x"
    then have "ilog2 x + 1 \<le> e" by simp
    then have "(2::rat) powi (ilog2 x + 1) \<le> 2 powi e"
      by (intro power_int_increasing) simp_all
    also have "\<dots> \<le> x" by (rule assms(2))
    finally show False using ilog2_bounds(2) [OF assms(1)] by simp
  qed
qed

lemma round64_at:
  assumes "0 < x" "2 powi e \<le> x" "x < 2 powi (e + 1)"
  shows "round64 x = of_int (roundHalfEven (x / 2 powi (e - 52))) * 2 powi (e - 52)"
  using round64_pos [OF assms(1)] ilog2_unique [OF assms] by simp

lemma round64_values:
  "round64 4319 = 4319" "round64 4320 = 4320" "round64 4321 = 4321"
  by (simp_all add: round64_at [where e = 12] roundHalfEven_def Let_def)

lemma round64_values2:
  "round64 1 = 1" "round64 2 = 2" "round64 3599999999999 = 3599999999999"
  by (simp_all add: round64_at [where e = 0] round64_at [where e = 1] round64_at [where e = 41]
      roundHalfEven_def Let_def)

lemma roundHalfEven_nearest:
  assumes "of_int n - 1 / 2 < x" "x < of_int n + 1 / 2"
  shows "roundHalfEven x = n"
proof -
  have "of_int (n - 1) \<le> x" using assms(1) by simp
  then have lo: "n - 1 \<le> \<lfloor>x\<rfloor>" by (simp only: le_floor_iff)
  have "x < of_int (n + 1)" using assms(2) by simp
  then have "\<lfloor>x\<rfloor> < n + 1" by (simp only: floor_less_iff)
  with lo consider "\<lfloor>x\<rfloor> = n" | "\<lfloor>x\<rfloor> = n - 1" by linarith
  then show ?thesis
  proof cases
    case 1
    then show ?thesis using assms(2) by (simp add: roundHalfEven_def Let_def)
  next
    case 2
    then show ?thesis using assms(1) by (simp add: roundHalfEven_def Let_def)
  qed
qed

lemma round64_nearest:
  assumes "2 powi e \<le> x" "x < 2 powi (e + 1)"
    and "(of_int n - 1 / 2) * 2 powi (e - 52) < x" "x < (of_int n + 1 / 2) * 2 powi (e - 52)"
  shows "round64 x = of_int n * 2 powi (e - 52)"
proof -
  have u: "(0::rat) < 2 powi (e - 52)" by simp
  have pos: "0 < x" using assms(1) by (rule less_le_trans [rotated]) simp
  have "of_int n - 1 / 2 < x / 2 powi (e - 52)"
    using assms(3) u by (simp add: pos_less_divide_eq)
  moreover have "x / 2 powi (e - 52) < of_int n + 1 / 2"
    using assms(4) u by (simp add: pos_divide_less_eq)
  ultimately have "roundHalfEven (x / 2 powi (e - 52)) = n" by (rule roundHalfEven_nearest)
  then show ?thesis using round64_at [OF pos assms(1,2)] by simp
qed

lemma round64_quotients:
  "round64 (1 / 3600000000000) = 2750977865078623 / 9903520314283042199192993792"
  "round64 (2 / 3600000000000) = 2750977865078623 / 4951760157141521099596496896"
  using round64_nearest [where e = "- 42" and n = 5501955730157246 and x = "1 / 3600000000000"]
    round64_nearest [where e = "- 41" and n = 5501955730157246 and x = "2 / 3600000000000"]
  by simp_all

lemma round64_sums:
  "round64 (4320 + 2750977865078623 / 9903520314283042199192993792) = 4320"
  "round64 (4320 + 2750977865078623 / 4951760157141521099596496896)
   = 4749890231992321 / 1099511627776"
  using round64_nearest [where e = 12 and n = 4749890231992320
      and x = "4320 + 2750977865078623 / 9903520314283042199192993792"]
    round64_nearest [where e = 12 and n = 4749890231992321
      and x = "4320 + 2750977865078623 / 4951760157141521099596496896"]
  by simp_all

lemma sdiv_smod_nonneg:
  "0 \<le> d \<Longrightarrow> d sdiv Hour = d div Hour" "0 \<le> d \<Longrightarrow> d smod Hour = d mod Hour"
  by (simp_all add: signed_divide_int_def signed_modulo_int_def Hour_def sgn_if)

lemma sdiv_smod_neg:
  "d < 0 \<Longrightarrow> d sdiv Hour \<le> 0" "d < 0 \<Longrightarrow> d smod Hour \<le> 0"
  by (simp_all add: signed_divide_int_def signed_modulo_int_def Hour_def sgn_if
      pos_imp_zdiv_nonneg_iff)

lemma fraction_le_1:
  assumes "n < Hour"
  shows "round64 (round64 (of_int n) / 3600000000000) \<le> 1"
proof -
  have "(of_int n :: rat) \<le> 3599999999999"
    using assms of_int_le_iff [of n 3599999999999, where ?'a = rat] by (simp add: Hour_def)
  then have "round64 (of_int n) \<le> round64 3599999999999" by (rule round64_mono)
  then have "round64 (of_int n) / 3600000000000 \<le> 1" by (simp add: round64_values2)
  then have "round64 (round64 (of_int n) / 3600000000000) \<le> round64 1" by (rule round64_mono)
  then show ?thesis by (simp add: round64_values2)
qed

lemma fraction_ge_2:
  assumes "2 \<le> n"
  shows "2750977865078623 / 4951760157141521099596496896
         \<le> round64 (round64 (of_int n) / 3600000000000)"
proof -
  have "(2 :: rat) \<le> of_int n"
    using assms of_int_le_iff [of 2 n, where ?'a = rat] by simp
  then have "round64 2 \<le> round64 (of_int n)" by (rule round64_mono)
  then have "2 / 3600000000000 \<le> round64 (of_int n) / 3600000000000"
    by (simp add: round64_values2)
  then have "round64 (2 / 3600000000000) \<le> round64 (round64 (of_int n) / 3600000000000)"
    by (rule round64_mono)
  then show ?thesis by (simp only: round64_quotients)
qed

lemma fraction_nonneg:
  assumes "0 \<le> n"
  shows "0 \<le> round64 (round64 (of_int n) / 3600000000000)"
proof -
  have "0 \<le> round64 (of_int n)" using assms by (intro round64_nonneg) simp
  then show ?thesis by (intro round64_nonneg) simp
qed

lemma fraction_nonpos:
  assumes "n \<le> 0"
  shows "round64 (round64 (of_int n) / 3600000000000) \<le> 0"
proof -
  have "round64 (of_int n) \<le> 0" using assms by (intro round64_nonpos) simp
  then show ?thesis by (intro round64_nonpos) (simp add: divide_le_0_iff)
qed

lemma Hours_within:
  assumes "d \<le> 4320 * Hour"
  shows "Hours d \<le> 4320"
proof (cases "0 \<le> d")
  case True
  define h where "h = d div Hour"
  define n where "n = d mod Hour"
  have H: "Hours d = round64 (round64 (of_int h) + round64 (round64 (of_int n) / 3600000000000))"
    using True by (simp add: Hours_def Let_def sdiv_smod_nonneg h_def n_def)
  have n: "0 \<le> n" "n < Hour" by (simp_all add: n_def Hour_def)
  have d: "d = h * Hour + n" by (simp add: h_def n_def)
  have "d div Hour \<le> 4320 * Hour div Hour" using assms by (intro zdiv_mono1) (simp_all add: Hour_def)
  then have "h \<le> 4320" by (simp add: h_def Hour_def)
  then consider "h = 4320" | "h \<le> 4319" by linarith
  then show ?thesis
  proof cases
    case 1
    then have "n = 0" using d assms n by simp
    then show ?thesis using 1 by (simp add: H round64_0 round64_values)
  next
    case 2
    then have "(of_int h :: rat) \<le> 4319"
      using of_int_le_iff [of h 4319, where ?'a = rat] by simp
    then have "round64 (of_int h) \<le> round64 4319" by (rule round64_mono)
    then have "round64 (of_int h) + round64 (round64 (of_int n) / 3600000000000) \<le> 4320"
      using fraction_le_1 [OF n(2)] by (simp add: round64_values)
    then have "Hours d \<le> round64 4320" unfolding H by (rule round64_mono)
    then show ?thesis by (simp add: round64_values)
  qed
next
  case False
  then have neg: "d < 0" by simp
  have "round64 (of_int (d sdiv Hour)) \<le> 0"
    using sdiv_smod_neg(1) [OF neg] by (intro round64_nonpos) simp
  then have "round64 (of_int (d sdiv Hour))
             + round64 (round64 (of_int (d smod Hour)) / 3600000000000) \<le> 0"
    using fraction_nonpos [OF sdiv_smod_neg(2) [OF neg]] by simp
  then have "Hours d \<le> 0" unfolding Hours_def Let_def by (rule round64_nonpos)
  then show ?thesis by simp
qed

lemma Hours_one_past: "Hours (4320 * Hour + 1) = 4320"
proof -
  have "(4320 * Hour + 1) sdiv Hour = 4320" "(4320 * Hour + 1) smod Hour = 1"
    by (simp_all add: signed_divide_int_def signed_modulo_int_def Hour_def)
  then have "Hours (4320 * Hour + 1) = round64 (round64 4320 + round64 (round64 1 / 3600000000000))"
    by (simp add: Hours_def Let_def)
  also have "\<dots> = round64 (4320 + 2750977865078623 / 9903520314283042199192993792)"
    by (simp only: round64_values round64_values2 round64_quotients)
  also have "\<dots> = 4320" by (rule round64_sums)
  finally show ?thesis .
qed

lemma Hours_beyond:
  assumes "4320 * Hour + 2 \<le> d"
  shows "4320 < Hours d"
proof -
  have nonneg: "0 \<le> d" using assms by (simp add: Hour_def)
  define h where "h = d div Hour"
  define n where "n = d mod Hour"
  have H: "Hours d = round64 (round64 (of_int h) + round64 (round64 (of_int n) / 3600000000000))"
    using nonneg by (simp add: Hours_def Let_def sdiv_smod_nonneg h_def n_def)
  have n: "0 \<le> n" "n < Hour" by (simp_all add: n_def Hour_def)
  have d: "d = h * Hour + n" by (simp add: h_def n_def)
  have "4320 * Hour div Hour \<le> d div Hour" using assms by (intro zdiv_mono1) (simp_all add: Hour_def)
  then have "4320 \<le> h" by (simp add: h_def Hour_def)
  then consider "h = 4320" | "4321 \<le> h" by linarith
  then show ?thesis
  proof cases
    case 1
    then have "2 \<le> n" using d assms by simp
    then have "4320 + 2750977865078623 / 4951760157141521099596496896
               \<le> round64 (of_int h) + round64 (round64 (of_int n) / 3600000000000)"
      using fraction_ge_2 [of n] 1 by (simp add: round64_values)
    then have "round64 (4320 + 2750977865078623 / 4951760157141521099596496896) \<le> Hours d"
      unfolding H by (rule round64_mono)
    then have "4749890231992321 / 1099511627776 \<le> Hours d" by (simp only: round64_sums)
    then show ?thesis by (rule less_le_trans [rotated]) simp
  next
    case 2
    then have "(4321 :: rat) \<le> of_int h"
      using of_int_le_iff [of 4321 h, where ?'a = rat] by simp
    then have "round64 4321 \<le> round64 (of_int h)" by (rule round64_mono)
    then have "4321 \<le> round64 (of_int h) + round64 (round64 (of_int n) / 3600000000000)"
      using fraction_nonneg [OF n(1)] by (simp add: round64_values)
    then have "round64 4321 \<le> Hours d" unfolding H by (rule round64_mono)
    then show ?thesis by (simp add: round64_values)
  qed
qed

lemma timeFormatFor_threshold:
  "timeFormatFor now modTime =
     (if 6 * 30 * 24 * Hour + 1 < now - modTime then ''Jan _2 2006'' else ''Jan _2 15:04'')"
proof (cases "4320 * Hour + 1 < now - modTime")
  case True
  then have "4320 * Hour + 2 \<le> Since now modTime"
    by (simp add: Since_def Let_def Hour_def)
  then have "4320 < Hours (Since now modTime)" by (rule Hours_beyond)
  then show ?thesis using True by (simp add: timeFormatFor_def)
next
  case False
  then have "Since now modTime \<le> 4320 * Hour + 1"
    by (simp add: Since_def Let_def Hour_def)
  then consider "Since now modTime \<le> 4320 * Hour" | "Since now modTime = 4320 * Hour + 1"
    by linarith
  then have "Hours (Since now modTime) \<le> 4320"
  proof cases
    case 1
    then show ?thesis by (rule Hours_within)
  next
    case 2
    then show ?thesis by (simp only: Hours_one_past)
  qed
  then show ?thesis using False by (simp add: timeFormatFor_def)
qed

text \<open>
  C5 (amended). In the long format every entry whose \<^verbatim>\<open>Info()\<close> succeeds is rendered with the
  clock read when its line is printed. The layout of the modification time is
  abbreviated-month day year when the age exceeds \<open>6 * 30 * 24\<close> hours by more than one
  nanosecond, and abbreviated-month day hour:minute otherwise: at or within the threshold,
  and also one nanosecond past it, where the age in float64 hours is exactly \<open>4320\<close>.
\<close>

theorem modification_time_format:
  assumes "Info entry = Inr info"
  shows "printEntries env i (entry # entries) =
           permsOf info @ '' '' @ showNat (Nlink info) @ '' '' @ ownerName env info @ '' ''
           @ groupName env info @ '' '' @ padLeft 4 (showInt (Size info)) @ '' ''
           @ TimeFormat env
               (if 6 * 30 * 24 * Hour + 1 < Now env i - ModTime info then ''Jan _2 2006''
                else ''Jan _2 15:04'')
               (ModTime info) @ '' ''
           @ getFileNameWithIcon (unicodeLower env) entry @ newline
           @ printEntries env (Suc i) entries
         \<and> timeFormatFor now modTime =
             (if 6 * 30 * 24 * Hour + 1 < now - modTime then ''Jan _2 2006''
              else ''Jan _2 15:04'')"
proof
  have "printEntries env i (entry # entries) =
          printDetailedEntry env (Now env i) entry @ printEntries env (Suc i) entries"
    by simp
  also have "printDetailedEntry env (Now env i) entry =
          permsOf info @ '' '' @ showNat (Nlink info) @ '' '' @ ownerName env info @ '' ''
          @ groupName env info @ '' '' @ padLeft 4 (showInt (Size info)) @ '' ''
          @ TimeFormat env (timeFormatFor (Now env i) (ModTime info)) (ModTime info) @ '' ''
          @ getFileNameWithIcon (unicodeLower env) entry @ newline"
    using assms by (simp add: printDetailedEntry_def)
  finally show "printEntries env i (entry # entries) =
           permsOf info @ '' '' @ showNat (Nlink info) @ '' '' @ ownerName env info @ '' ''
           @ groupName env info @ '' '' @ padLeft 4 (showInt (Size info)) @ '' ''
           @ TimeFormat env
               (if 6 * 30 * 24 * Hour + 1 < Now env i - ModTime info then ''Jan _2 2006''
                else ''Jan _2 15:04'')
               (ModTime info) @ '' ''
           @ getFileNameWithIcon (unicodeLower env) entry @ newline
           @ printEntries env (Suc i) entries"
    by (simp only: timeFormatFor_threshold append_assoc)
  show "timeFormatFor now modTime =
             (if 6 * 30 * 24 * Hour + 1 < now - modTime then ''Jan _2 2006''
              else ''Jan _2 15:04'')"
    by (rule timeFormatFor_threshold)
qed

lemma old_simps:
  "Info fileOld = Inr infoOld" "Name fileOld = ''old.txt''" "\<not> IsDir fileOld"
  "Info fileOlder = Inr infoOlder" "Name fileOlder = ''older.txt''" "\<not> IsDir fileOlder"
  "Uid infoOld = 9999" "Gid infoOld = 4242" "Nlink infoOld = 1" "Size infoOld = 42"
  "ModTime infoOld = 1684447999999999999" "Blocks infoOld = 8"
  "Uid infoOlder = 9999" "Gid infoOlder = 4242" "Nlink infoOlder = 1" "Size infoOlder = 42"
  "ModTime infoOlder = 1684447999999999998" "Blocks infoOlder = 8"
  by (simp_all add: fileOld_def fileOlder_def infoOld_def infoOlder_def)

lemma permsOf_old: "permsOf infoOld = ''-rw-r--r--''" "permsOf infoOlder = ''-rw-r--r--''"
  by code_simp+

lemma icon_old:
  "getFileNameWithIcon id fileOld = iconText @ ''old.txt''"
  "getFileNameWithIcon id fileOlder = iconText @ ''older.txt''"
  by code_simp+

lemma total_old: "printTotalBlocks [fileOld] = ''total 4'' @ newline"
  by (simp add: printTotalBlocks_def old_simps showInt_def showNat.simps digitChar_simps
      signed_divide_int_def int64_def)

theorem modification_time_format_witness:
  "Info fileNotes = Inr infoNotes
   \<and> printEntries (exampleEnv [fileNotes] (Inr (80, 24))) 0 [fileNotes]
       = ''-rw-r--r-- 1 9999 4242   42 Jan _2 15:04 '' @ iconText @ ''notes.txt'' @ newline
   \<and> Info fileOlder = Inr infoOlder
   \<and> printEntries (exampleEnv [fileOlder] (Inr (80, 24))) 0 [fileOlder]
       = ''-rw-r--r-- 1 9999 4242   42 Jan _2 2006 '' @ iconText @ ''older.txt'' @ newline
   \<and> timeFormatFor 1700000000000000000 1684448000000000000 = ''Jan _2 15:04''"
proof (intro conjI)
  show "Info fileNotes = Inr infoNotes" by (rule fileNotes_simps)
  show "Info fileOlder = Inr infoOlder" by (rule old_simps)
  show "printEntries (exampleEnv [fileNotes] (Inr (80, 24))) 0 [fileNotes]
       = ''-rw-r--r-- 1 9999 4242   42 Jan _2 15:04 '' @ iconText @ ''notes.txt'' @ newline"
    using modification_time_format [OF fileNotes_simps(1),
        where env = "exampleEnv [fileNotes] (Inr (80, 24))" and i = 0 and entries = "[]",
        THEN conjunct1]
    by (simp add: infoNotes_simps exampleEnv_simps permsOf_examples showNat_small showNat_9999
        showNat_4242 padLeft_42 icon_notes ownerName_def groupName_def Hour_def iconText_def)
  show "printEntries (exampleEnv [fileOlder] (Inr (80, 24))) 0 [fileOlder]
       = ''-rw-r--r-- 1 9999 4242   42 Jan _2 2006 '' @ iconText @ ''older.txt'' @ newline"
    using modification_time_format [OF old_simps(4),
        where env = "exampleEnv [fileOlder] (Inr (80, 24))" and i = 0 and entries = "[]",
        THEN conjunct1]
    by (simp add: old_simps exampleEnv_simps permsOf_old showNat_small showNat_9999
        showNat_4242 padLeft_42 icon_old ownerName_def groupName_def Hour_def)
  show "timeFormatFor 1700000000000000000 1684448000000000000 = ''Jan _2 15:04''"
    using modification_time_format [OF fileNotes_simps(1),
        where now = 1700000000000000000 and modTime = 1684448000000000000, THEN conjunct2]
    by (simp add: Hour_def)
qed

text \<open>
  C5 as stated fails one nanosecond past the threshold: \<^verbatim>\<open>old.txt\<close> is strictly older than
  \<open>6 * 30 * 24\<close> hours when its line is printed, and the line carries the hour:minute layout
  (the time formatter of \<^const>\<open>exampleEnv\<close> returns the layout it is given).
\<close>

theorem one_nanosecond_past_threshold:
  "6 * 30 * 24 * Hour < Now (exampleEnv [fileOld] (Inr (80, 24))) 0 - ModTime infoOld
   \<and> Run (exampleEnv [fileOld] (Inr (80, 24))) True []
       = Inr \<lparr>stdout = ''total 4'' @ newline
                      @ ''-rw-r--r-- 1 9999 4242   42 Jan _2 15:04 '' @ iconText @ ''old.txt''
                      @ newline,
              stderr = []\<rparr>"
proof
  show "6 * 30 * 24 * Hour < Now (exampleEnv [fileOld] (Inr (80, 24))) 0 - ModTime infoOld"
    by (simp add: exampleEnv_simps old_simps Hour_def)
  have "timeFormatFor 1700000000000000000 1684447999999999999 = ''Jan _2 15:04''"
    by (simp add: timeFormatFor_threshold Hour_def)
  then show "Run (exampleEnv [fileOld] (Inr (80, 24))) True []
       = Inr \<lparr>stdout = ''total 4'' @ newline
                      @ ''-rw-r--r-- 1 9999 4242   42 Jan _2 15:04 '' @ iconText @ ''old.txt''
                      @ newline,
              stderr = []\<rparr>"
    by (simp add: Run_def Let_def exampleEnv_simps sorted_single total_old
        printDetailedEntry_def old_simps permsOf_old showNat_small showNat_9999 showNat_4242
        padLeft_42 icon_old ownerName_def groupName_def)
qed

end
